theory Spec2Isabelle
  imports Main "HOL-Library.Word" "HOL-Library.Monad_Syntax"
begin

unbundle bit_operations_syntax

section \<open>Data model of v4l2.c\<close>

text \<open>
  C \<open>int\<close> fields of the session are modelled as \<open>int\<close>; the values stored in them by the
  functions below stay far away from the 32-bit limits.  Fields that the kernel writes
  (\<open>__u32\<close> members of the ioctl argument structures) are \<open>32 word\<close>, converted with
  \<open>sint\<close> where the source assigns them to an \<open>int\<close>.  The two statistic counters are
  \<open>Tcl_WideInt\<close>, modelled as \<open>64 word\<close> read with \<open>sint\<close>.
\<close>

type_synonym u8 = "8 word"
type_synonym u32 = "32 word"
type_synonym wideint = "64 word"

text \<open>\<open>VBUF\<close>: one frame buffer obtained from \<open>mmap()\<close>.\<close>

record VBUF =
  start :: int
  length_b :: u32

datatype v4l2_ctrl_type =
    V4L2_CTRL_TYPE_INTEGER
  | V4L2_CTRL_TYPE_BOOLEAN
  | V4L2_CTRL_TYPE_MENU
  | V4L2_CTRL_TYPE_BUTTON
  | V4L2_CTRL_TYPE_INTEGER64
  | V4L2_CTRL_TYPE_CTRL_CLASS
  | V4L2_CTRL_TYPE_STRING

text \<open>The members of \<open>struct v4l2_queryctrl\<close> that v4l2.c reads.\<close>

record v4l2_queryctrl =
  qid :: u32
  qtype :: v4l2_ctrl_type
  qname :: string
  minimum :: int
  maximum :: int
  step :: int
  default_value :: int
  flags :: u32

text \<open>
  \<open>VCTRL\<close>.  The \<open>Tcl_DString ds\<close> of menu choices holds the entries one after the other,
  each followed by a NUL character.
\<close>

record VCTRL =
  qry :: v4l2_queryctrl
  useOld :: int
  ds :: string

text \<open>
  A \<open>VCTRL *\<close> as stored in the hash tables: the address of one of the two special
  controls embedded in the session, or of a heap-allocated control.
\<close>

datatype vptr = Ptr_fsize | Ptr_frate | Ptr_heap nat

text \<open>
  \<open>V4L2C\<close>, the control structure of one opened device.  \<open>counters\<close> is the array
  \<open>counters[2]\<close> as a pair; \<open>heap\<close> holds the controls allocated by \<open>InitControls\<close>, to
  which \<open>ctrl\<close> (by id) and \<open>nctrl\<close> (by name) point.
\<close>

record V4L2C =
  running :: int
  stalled :: int
  format :: u32
  wantFormat :: u32
  greyshift :: int
  fd :: int
  isLoopDev :: int
  loopFormat :: u32
  mirror :: int
  rotate_deg :: int
  bufrdy :: int
  bufdone :: int
  width :: int
  height :: int
  loopWidth :: int
  loopHeight :: int
  fps :: int
  devId :: string
  devName :: string
  cbCmdLen :: nat
  cbCmd :: string
  ctrl :: "u32 \<rightharpoonup> vptr"
  nctrl :: "string \<rightharpoonup> vptr"
  heap :: "nat \<Rightarrow> VCTRL"
  fsize :: VCTRL
  frate :: VCTRL
  counters :: "wideint \<times> wideint"
  nvbufs :: int
  vbufs :: "VBUF list"

section \<open>The environment: kernel, event loop and interpreter\<close>

text \<open>The argument structures of the ioctls, reduced to the members v4l2.c uses.\<close>

record v4l2_format =
  pix_width :: u32
  pix_height :: u32
  pixelformat :: u32

record v4l2_streamparm =
  capability :: u32
  numerator :: u32
  denominator :: u32

record v4l2_buffer =
  index :: u32
  sequence :: u32
  buf_length :: u32
  buf_offset :: u32

text \<open>
  \<open>struct v4l2_ext_control\<close> as passed in a \<open>v4l2_ext_controls\<close> of count 1.  Its members
  \<open>value\<close> and \<open>value64\<close> share storage (a union); \<open>xvalue\<close> is that storage, of which
  \<open>value\<close> is the low half.
\<close>

record v4l2_ext_control =
  ctrl_class :: u32
  xid :: u32
  xvalue :: "64 word"

record v4l2_control =
  cid :: u32
  cvalue :: int

datatype cmd =
    VIDIOC_S_FMT v4l2_format
  | VIDIOC_G_PARM v4l2_streamparm
  | VIDIOC_S_PARM v4l2_streamparm
  | VIDIOC_REQBUFS u32
  | VIDIOC_QUERYBUF v4l2_buffer
  | VIDIOC_QBUF v4l2_buffer
  | VIDIOC_DQBUF v4l2_buffer
  | VIDIOC_STREAMON
  | VIDIOC_STREAMOFF
  | VIDIOC_S_CTRL v4l2_control
  | VIDIOC_S_EXT_CTRLS v4l2_ext_control

text \<open>Everything the code does to the outside world, in the order it does it.\<close>

datatype ev =
    Ioctl int cmd
  | Sched_yield
  | Mmap int u32 u32
  | Munmap int u32
  | Nanosleep nat
  | CreateFileHandler int
  | DeleteFileHandler int
  | EvalEx string
  | BackgroundException int

text \<open>What a command leaves in the interpreter as its result.\<close>

datatype tclobj =
    EmptyObj
  | IntObj int
  | StringObj string
  | PosixErrorObj string int
  | WrongNumArgsObj string
  | ExpectedIntegerObj string
  | LibraryErrorObj string

text \<open>
  The world outside the session: the history of events, \<open>errno\<close>, and the interpreter's
  result object.
\<close>

record env =
  trace :: "ev list"
  errno :: int
  result :: tclobj

text \<open>
  The kernel is a parameter: given the history so far, the file descriptor and the
  command with its argument structure, \<open>v4l2_ioctl\<close> answers with its return value, the
  value of \<open>errno\<close> after the call, and the argument structure as the kernel left it.
\<close>

type_synonym kernel = "ev list \<Rightarrow> int \<Rightarrow> cmd \<Rightarrow> int \<times> int \<times> cmd"

definition EINTR :: int where "EINTR = 4"
definition EAGAIN :: int where "EAGAIN = 11"
definition EWOULDBLOCK :: int where "EWOULDBLOCK = 11"
definition EINVAL :: int where "EINVAL = 22"

definition TCL_OK :: int where "TCL_OK = 0"
definition TCL_ERROR :: int where "TCL_ERROR = 1"
definition TCL_READABLE :: int where "TCL_READABLE = 2"

definition emit :: "ev \<Rightarrow> env \<Rightarrow> env" where
  "emit x e = e\<lparr>trace := trace e @ [x]\<rparr>"

section \<open>DoIoctl\<close>

text \<open>
  The EINTR safe \<open>v4l2_ioctl\<close>.  The loop ends only when the kernel stops answering with
  \<open>-1\<close> and \<open>EINTR\<close>; a call that is interrupted for ever has the value \<open>None\<close>.
\<close>

partial_function (option) DoIoctl :: "kernel \<Rightarrow> env \<Rightarrow> int \<Rightarrow> cmd \<Rightarrow> (int \<times> cmd \<times> env) option" where
  "DoIoctl K e fdv c =
     (case K (trace e) fdv c of (ret, en, c') \<Rightarrow>
        let e' = (emit (Ioctl fdv c) e)\<lparr>errno := en\<rparr> in
        if ret = -1 \<and> en = EINTR
        then DoIoctl K (emit Sched_yield e') fdv c'
        else Some (ret, c', e'))"

declare DoIoctl.simps [code]

section \<open>StopCapture\<close>

definition munmap_all :: "VBUF list \<Rightarrow> env \<Rightarrow> env" where
  "munmap_all bs e = fold (\<lambda>b. emit (Munmap (start b) (length_b b))) bs e"

text \<open>
  The buffers unmapped are \<open>vbufs[0]\<close> to \<open>vbufs[nvbufs - 1]\<close>; \<open>nvbufs\<close> never exceeds the
  16 slots of the array.
\<close>

definition StopCapture :: "kernel \<Rightarrow> V4L2C \<times> env \<Rightarrow> (int \<times> V4L2C \<times> env) option" where
  "StopCapture K = (\<lambda>(v, e).
     if running v > 0 then do {
       let e1 = emit (DeleteFileHandler (fd v)) e;
       (_, _, e2) \<leftarrow> DoIoctl K e1 (fd v) VIDIOC_STREAMOFF;
       let e3 = munmap_all (take (nat (nvbufs v)) (vbufs v)) e2;
       (_, _, e4) \<leftarrow> DoIoctl K e3 (fd v) (VIDIOC_REQBUFS 0);
       Some (TCL_OK, v\<lparr>running := 0, stalled := 0, bufrdy := -1, bufdone := 0\<rparr>, e4)
     } else Some (TCL_OK, v, e))"

section \<open>The orientation command\<close>

text \<open>The \<open>%\<close> of C: the quotient is truncated, so the remainder has the sign of \<open>a\<close>.\<close>

definition c_rem :: "int \<Rightarrow> int \<Rightarrow> int" where
  "c_rem a b = sgn a * (\<bar>a\<bar> mod \<bar>b\<bar>)"

text \<open>
  \<open>case CMD_orientation\<close> of \<open>V4l2ObjCmd\<close>, after the device has been found.  \<open>args\<close> are the
  words after the device id (\<open>objv[3]\<close> and on), \<open>GetInt\<close> is \<open>Tcl_GetIntFromObj\<close>.
\<close>

definition CMD_orientation ::
    "(string \<Rightarrow> int option) \<Rightarrow> string list \<Rightarrow> V4L2C \<times> env \<Rightarrow> int \<times> V4L2C \<times> env" where
  "CMD_orientation GetInt args = (\<lambda>(v, e).
     if List.length args > 1 then (TCL_ERROR, v, e\<lparr>result := WrongNumArgsObj ''devid ?degrees?''\<rparr>)
     else case args of
       a # _ \<Rightarrow>
         (case GetInt a of
            None \<Rightarrow> (TCL_ERROR, v, e\<lparr>result := ExpectedIntegerObj a\<rparr>)
          | Some d \<Rightarrow>
              let degrees = c_rem d 360 in
              if degrees < 45 then (TCL_OK, v\<lparr>rotate_deg := 0\<rparr>, e)
              else if degrees < 135 then (TCL_OK, v\<lparr>rotate_deg := 90\<rparr>, e)
              else if degrees < 225 then (TCL_OK, v\<lparr>rotate_deg := 180\<rparr>, e)
              else if degrees < 315 then (TCL_OK, v\<lparr>rotate_deg := 270\<rparr>, e)
              else (TCL_OK, v\<lparr>rotate_deg := 0\<rparr>, e))
     | [] \<Rightarrow> (TCL_OK, v, e\<lparr>result := IntObj (rotate_deg v)\<rparr>))"

text \<open>
  The snapping as the specification words it: the angle is first reduced to its
  equivalent in \<open>[0, 360)\<close>, then the 45 degree sector boundaries decide.
\<close>

definition snap_spec :: "int \<Rightarrow> int" where
  "snap_spec d =
     (let r = d mod 360 in
      if r < 45 \<or> 315 \<le> r then 0
      else if r < 135 then 90
      else if r < 225 then 180
      else 270)"

section \<open>FixupName\<close>

text \<open>
  A \<open>char\<close> array is a list of characters; the C string in it ends before the first NUL.
\<close>

definition NUL :: char where "NUL = CHR 0x00"

definition cstr :: "string \<Rightarrow> string" where
  "cstr b = takeWhile (\<lambda>c. c \<noteq> NUL) b"

text \<open>\<open>tolower\<close> in the C locale.\<close>

definition tolower :: "char \<Rightarrow> char" where
  "tolower c = (let n = of_char c :: nat in if 65 \<le> n \<and> n \<le> 90 then char_of (n + 32) else c)"




section \<open>Conversion between packed YUV 4:2:2 and RGB\<close>

text \<open>
  The arithmetic is that of C \<open>int\<close>; no intermediate value leaves 32 bits, since the
  operands are bytes and the coefficients are below \<open>2^15\<close>.  \<open>>>\<close> on a negative \<open>int\<close> is
  the arithmetic shift, \<open>drop_bit\<close> on \<open>int\<close>.
\<close>

definition sat :: "int \<Rightarrow> u8" where
  "sat i = word_of_int (if i \<ge> 255 then 255 else if i < 0 then 0 else i)"

text \<open>
  Reading one byte of a buffer.  A read outside the buffer has no defined value in C;
  it is \<open>None\<close> here, and so is the result of a conversion that performs one.
\<close>

definition peek :: "u8 list \<Rightarrow> int \<Rightarrow> int option" where
  "peek buf i = (if 0 \<le> i \<and> i < int (List.length buf) then Some (uint (buf ! nat i)) else None)"

text \<open>
  \<open>Tk_PhotoImageBlock\<close>; \<open>pixelPtr\<close> is the memory it points to, \<open>offset\<close> the array
  \<open>offset[4]\<close> as a function of the index.
\<close>

record Tk_PhotoImageBlock =
  pixelPtr :: "u8 list"
  blk_width :: int
  blk_height :: int
  pitch :: int
  pixelSize :: int
  offset :: "nat \<Rightarrow> int"

text \<open>
  The loop of \<open>ConvertFromYUV\<close>: each round reads four bytes of \<open>in\<close> and writes six bytes,
  two pixels.  The first argument is \<open>isvu\<close>, the second the number of rounds.
\<close>

fun FromYUV_loop :: "bool \<Rightarrow> nat \<Rightarrow> u8 list \<Rightarrow> u8 list option" where
  "FromYUV_loop isvu 0 inp = Some []"
| "FromYUV_loop isvu (Suc n) (i0 # i1 # i2 # i3 # rest) =
     (let r = (if isvu then drop_bit 14 (22987 * (uint i1 - 128))
               else drop_bit 14 (22987 * (uint i3 - 128)));
          g = (if isvu then drop_bit 14 (-5636 * (uint i3 - 128) - 11698 * (uint i1 - 128))
               else drop_bit 14 (-5636 * (uint i1 - 128) - 11698 * (uint i3 - 128)));
          b = (if isvu then drop_bit 14 (29049 * (uint i3 - 128))
               else drop_bit 14 (29049 * (uint i1 - 128)))
      in case FromYUV_loop isvu n rest of
           None \<Rightarrow> None
         | Some out \<Rightarrow>
             Some (sat (uint i0 + r) # sat (uint i0 + g) # sat (uint i0 + b) #
                   sat (uint i2 + r) # sat (uint i2 + g) # sat (uint i2 + b) # out))"
| "FromYUV_loop isvu (Suc n) inp = None"

text \<open>
  \<open>ConvertFromYUV\<close>.  \<open>alloc\<close> says whether \<open>attemptckalloc\<close> of that many bytes succeeds; the
  value \<open>None\<close> is the \<open>NULL\<close> result, or a run that leaves the buffers.  The loop runs
  while \<open>beg < end\<close> in steps of six bytes, so a size that is not a multiple of six makes
  the last round write behind the allocation.
\<close>

definition ConvertFromYUV :: "(int \<Rightarrow> bool) \<Rightarrow> u8 list \<Rightarrow> int \<Rightarrow> int \<Rightarrow> bool \<Rightarrow> u8 list option" where
  "ConvertFromYUV alloc inp w h isvu =
     (let size = w * h * 3 in
      if \<not> alloc size then None
      else if size mod 6 \<noteq> 0 then None
      else FromYUV_loop isvu (nat (size div 6)) inp)"

text \<open>
  The loop of \<open>ConvertToYUV\<close>: each round reads two pixels at \<open>in\<close> (here the position
  \<open>pos\<close> in the memory of the block) and writes four bytes.
\<close>

fun ToYUV_loop :: "Tk_PhotoImageBlock \<Rightarrow> bool \<Rightarrow> nat \<Rightarrow> int \<Rightarrow> u8 list option" where
  "ToYUV_loop blk isvu 0 pos = Some []"
| "ToYUV_loop blk isvu (Suc n) pos =
     (case (peek (pixelPtr blk) (pos + offset blk 0),
            peek (pixelPtr blk) (pos + offset blk 1),
            peek (pixelPtr blk) (pos + offset blk 2),
            peek (pixelPtr blk) (pos + pixelSize blk + offset blk 0),
            peek (pixelPtr blk) (pos + pixelSize blk + offset blk 1),
            peek (pixelPtr blk) (pos + pixelSize blk + offset blk 2)) of
        (Some r1, Some g1, Some b1, Some r2, Some g2, Some b2) \<Rightarrow>
          (let y1 = sat (drop_bit 14 (4224 * r1 + 8256 * g1 + 1600 * b1) + 16);
               y2 = sat (drop_bit 14 (4224 * r2 + 8256 * g2 + 1600 * b2) + 16);
               rs = r1 + r2; bs = b1 + b2; gs = g1 + g2;
               u = sat (drop_bit 15 (-2432 * rs - 4736 * gs + 7168 * bs) + 128);
               v = sat (drop_bit 15 (7168 * rs - 6016 * gs - 1152 * bs) + 128)
           in case ToYUV_loop blk isvu n (pos + pixelSize blk + pixelSize blk) of
                None \<Rightarrow> None
              | Some out \<Rightarrow>
                  Some (if isvu then y1 # v # y2 # u # out else y1 # u # y2 # v # out))
      | _ \<Rightarrow> None)"

text \<open>
  \<open>ConvertToYUV\<close>; the length stored through \<open>lenPtr\<close> is the length of the result.
\<close>

definition ConvertToYUV :: "(int \<Rightarrow> bool) \<Rightarrow> Tk_PhotoImageBlock \<Rightarrow> bool \<Rightarrow> u8 list option" where
  "ConvertToYUV alloc blk isvu =
     (if pitch blk \<noteq> blk_width blk * pixelSize blk then None
      else let len = blk_width blk * blk_height blk * 2 in
        if \<not> alloc len then None
        else if len mod 4 \<noteq> 0 then None
        else ToYUV_loop blk isvu (nat (len div 4)) 0)"

text \<open>What the two conversions, one after the other, make of the grey level \<open>v\<close>.\<close>

definition grey_rt :: "u8 \<Rightarrow> u8" where
  "grey_rt v = sat (drop_bit 14 (14080 * uint v) + 16)"

section \<open>BufferReady\<close>

text \<open>
  The argument structure of a buffer ioctl after the call.  A kernel that answers with
  the structure of another command has not written to it.
\<close>

definition the_buffer :: "cmd \<Rightarrow> v4l2_buffer \<Rightarrow> v4l2_buffer" where
  "the_buffer c d =
     (case c of VIDIOC_DQBUF b \<Rightarrow> b | VIDIOC_QBUF b \<Rightarrow> b | VIDIOC_QUERYBUF b \<Rightarrow> b | _ \<Rightarrow> d)"

text \<open>\<open>sprintf(buffer, "%d", n)\<close>.\<close>

fun dec_nat :: "nat \<Rightarrow> string" where
  "dec_nat n = (if n < 10 then [char_of (48 + n)] else dec_nat (n div 10) @ [char_of (48 + n mod 10)])"

definition dec_int :: "int \<Rightarrow> string" where
  "dec_int i = (if i < 0 then CHR ''-'' # dec_nat (nat (- i)) else dec_nat (nat i))"

text \<open>
  \<open>Tcl_DStringAppendElement\<close> for an element that needs no quoting, as the device id,
  the word \<open>error\<close> and a decimal number are.
\<close>

definition DStringAppendElement :: "string \<Rightarrow> string \<Rightarrow> string" where
  "DStringAppendElement d el = (if d = [] then el else d @ CHR '' '' # el)"

text \<open>
  The interpreter is a parameter: \<open>Tcl_EvalEx\<close> of a script returns a completion code,
  and since the script may use the \<open>v4l2\<close> command it may change the session and the
  environment; a script that does not return has the value \<open>None\<close>.
\<close>

type_synonym interp = "string \<Rightarrow> V4L2C \<times> env \<Rightarrow> (int \<times> V4L2C \<times> env) option"


text \<open>From the label \<open>captureError\<close> to the jump to \<open>doCallback\<close>.\<close>

definition captureError :: "kernel \<Rightarrow> V4L2C \<times> env \<Rightarrow> (V4L2C \<times> env) option" where
  "captureError K = (\<lambda>(v, e). do {
     (_, v1, e1) \<leftarrow> StopCapture K (v, e);
     Some (v1\<lparr>running := -1, stalled := 0,
              cbCmd := DStringAppendElement
                 (DStringAppendElement (take (cbCmdLen v1) (cbCmd v1)) (devId v1)) ''error''\<rparr>, e1)
   })"

text \<open>From the label \<open>doCallback\<close> to the end of the function.\<close>

definition doCallback :: "kernel \<Rightarrow> interp \<Rightarrow> V4L2C \<times> env \<Rightarrow> (V4L2C \<times> env) option" where
  "doCallback K Eval = (\<lambda>(v, e). do {
     (ret, v1, e1) \<leftarrow> Eval (cbCmd v) (v, emit (EvalEx (cbCmd v)) e);
     if ret \<noteq> TCL_OK then do {
       (_, v2, e2) \<leftarrow> StopCapture K (v1, emit (BackgroundException ret) e1);
       Some (v2, e2)
     } else Some (v1, e1)
   })"

definition vbuf_zero :: v4l2_buffer where
  "vbuf_zero = \<lparr>index = 0, sequence = 0, buf_length = 0, buf_offset = 0\<rparr>"

definition BufferReady :: "kernel \<Rightarrow> interp \<Rightarrow> int \<Rightarrow> V4L2C \<times> env \<Rightarrow> (V4L2C \<times> env) option" where
  "BufferReady K Eval rmask = (\<lambda>(v, e).
     if rmask AND TCL_READABLE = 0 then Some (v, e)
     else do {
       (ret, c, e1) \<leftarrow> DoIoctl K e (fd v) (VIDIOC_DQBUF vbuf_zero);
       let vbuf = the_buffer c vbuf_zero;
       if ret < 0 then
         (if errno e1 = EAGAIN \<or> errno e1 = EWOULDBLOCK then
            (if stalled v \<noteq> 0 then captureError K (v, e1) \<bind> doCallback K Eval
             else Some (v\<lparr>stalled := 1\<rparr>, emit (Nanosleep 10000000) e1))
          else captureError K (v, e1) \<bind> doCallback K Eval)
       else do {
         let seq = sint (sequence vbuf);
         let v1 = v\<lparr>stalled := 0, bufdone := 0,
                    counters := (fst (counters v) + 1, snd (counters v))\<rparr>;
         let cmd_ok = DStringAppendElement
                 (DStringAppendElement (take (cbCmdLen v1) (cbCmd v1)) (devId v1)) (dec_int seq);
         if bufrdy v1 \<ge> 0 then do {
           let swap = sint (index vbuf);
           let vbuf' = vbuf\<lparr>index := word_of_int (bufrdy v1)\<rparr>;
           let v2 = v1\<lparr>bufrdy := swap\<rparr>;
           (ret2, _, e2) \<leftarrow> DoIoctl K e1 (fd v2) (VIDIOC_QBUF vbuf');
           if ret2 < 0 then captureError K (v2, e2) \<bind> doCallback K Eval
           else doCallback K Eval (v2\<lparr>cbCmd := cmd_ok\<rparr>, e2)
         } else doCallback K Eval (v1\<lparr>bufrdy := sint (index vbuf), cbCmd := cmd_ok\<rparr>, e1)
       }
     })"

section \<open>GetImage\<close>

text \<open>\<open>V4L2I\<close>, the control structure of the interpreter, without its udev part.\<close>

record V4L2I =
  idCount :: int
  checkedTk :: int

text \<open>
  What \<open>GetImage\<close> asks of Tk: whether the package can be loaded, whether the
  application still has a main window, and whether a name is that of a photo image.
\<close>

record tk =
  PkgRequireTk :: bool
  MainWindow :: bool
  FindPhoto :: "string \<Rightarrow> bool"

definition CheckForTk :: "tk \<Rightarrow> V4L2I \<times> env \<Rightarrow> int \<times> V4L2I \<times> env" where
  "CheckForTk t = (\<lambda>(i, e).
     if checkedTk i > 0 then (TCL_OK, i, e)
     else if checkedTk i < 0 then (TCL_ERROR, i, e\<lparr>result := StringObj ''can't find package Tk''\<rparr>)
     else if \<not> PkgRequireTk t
       then (TCL_ERROR, i\<lparr>checkedTk := -1\<rparr>, e\<lparr>result := LibraryErrorObj ''Tcl_PkgRequire''\<rparr>)
     else (TCL_OK, i\<lparr>checkedTk := 1\<rparr>, e))"

text \<open>
  The conversion of the ready frame (the two branches \<open>if (photo != NULL) ... else ...\<close>
  that follow the test of \<open>bufrdy\<close>) reads the session and the frame buffer, writes to
  the photo image or builds the result list, and ends with values for \<open>result\<close> and
  \<open>done\<close>.  It assigns to no member of the session, and is a parameter here.
\<close>

type_synonym converter = "V4L2C \<Rightarrow> int \<Rightarrow> string option \<Rightarrow> env \<Rightarrow> int \<times> bool \<times> env"

definition GetImage ::
    "tk \<Rightarrow> converter \<Rightarrow> int \<Rightarrow> string option \<Rightarrow> V4L2I \<times> V4L2C \<times> env \<Rightarrow> int \<times> V4L2I \<times> V4L2C \<times> env" where
  "GetImage t convert flgs arg = (\<lambda>(i, v, e).
     let (rc, i1, e1) = (case arg of None \<Rightarrow> (TCL_OK, i, e) | Some name \<Rightarrow> CheckForTk t (i, e)) in
     if rc \<noteq> TCL_OK then (TCL_ERROR, i1, v, e1)
     else if arg \<noteq> None \<and> \<not> MainWindow t
       then (TCL_ERROR, i1, v, e1\<lparr>result := StringObj ''application has been destroyed''\<rparr>)
     else if arg \<noteq> None \<and> \<not> FindPhoto t (the arg)
       then (TCL_ERROR, i1, v,
              e1\<lparr>result := StringObj (''can't use \"'' @ the arg @ ''\": not a photo image'')\<rparr>)
     else
       let (res, done, e2) =
             (if bufrdy v < 0 then
                (if arg \<noteq> None then (TCL_OK, False, e1\<lparr>result := IntObj 0\<rparr>)
                 else (TCL_ERROR, False, e1\<lparr>result := StringObj ''no image available''\<rparr>))
              else convert v flgs arg e1)
       in if done \<and> bufdone v = 0
          then (res, i1, v\<lparr>bufdone := 1, counters := (fst (counters v), snd (counters v) + 1)\<rparr>, e2)
          else (res, i1, v, e2))"

section \<open>StartCapture\<close>

text \<open>Pixel formats, as \<open>v4l2_fourcc\<close> makes them in \<open>linux/videodev2.h\<close>.\<close>

text \<open>The conversion \<open>(__u32) c\<close> of a (signed) \<open>char\<close>.\<close>

definition char_u32 :: "char \<Rightarrow> u32" where
  "char_u32 c = (if (of_char c :: nat) \<ge> 128 then of_nat (of_char c) OR 0xFFFFFF00 else of_nat (of_char c))"

definition v4l2_fourcc :: "char \<Rightarrow> char \<Rightarrow> char \<Rightarrow> char \<Rightarrow> u32" where
  "v4l2_fourcc a b c d =
     char_u32 a OR push_bit 8 (char_u32 b) OR push_bit 16 (char_u32 c) OR push_bit 24 (char_u32 d)"

definition V4L2_PIX_FMT_RGB24 :: u32 where
  "V4L2_PIX_FMT_RGB24 = v4l2_fourcc (CHR ''R'') (CHR ''G'') (CHR ''B'') (CHR ''3'')"
definition V4L2_PIX_FMT_BGR24 :: u32 where
  "V4L2_PIX_FMT_BGR24 = v4l2_fourcc (CHR ''B'') (CHR ''G'') (CHR ''R'') (CHR ''3'')"
definition V4L2_PIX_FMT_RGB32 :: u32 where
  "V4L2_PIX_FMT_RGB32 = v4l2_fourcc (CHR ''R'') (CHR ''G'') (CHR ''B'') (CHR ''4'')"
definition V4L2_PIX_FMT_BGR32 :: u32 where
  "V4L2_PIX_FMT_BGR32 = v4l2_fourcc (CHR ''B'') (CHR ''G'') (CHR ''R'') (CHR ''4'')"
definition V4L2_PIX_FMT_YUYV :: u32 where
  "V4L2_PIX_FMT_YUYV = v4l2_fourcc (CHR ''Y'') (CHR ''U'') (CHR ''Y'') (CHR ''V'')"
definition V4L2_PIX_FMT_YVYU :: u32 where
  "V4L2_PIX_FMT_YVYU = v4l2_fourcc (CHR ''Y'') (CHR ''V'') (CHR ''Y'') (CHR ''U'')"
definition V4L2_PIX_FMT_MJPEG :: u32 where
  "V4L2_PIX_FMT_MJPEG = v4l2_fourcc (CHR ''M'') (CHR ''J'') (CHR ''P'') (CHR ''G'')"
definition V4L2_PIX_FMT_Y16 :: u32 where
  "V4L2_PIX_FMT_Y16 = v4l2_fourcc (CHR ''Y'') (CHR ''1'') (CHR ''6'') (CHR '' '')"
definition V4L2_PIX_FMT_Y10 :: u32 where
  "V4L2_PIX_FMT_Y10 = v4l2_fourcc (CHR ''Y'') (CHR ''1'') (CHR ''0'') (CHR '' '')"
definition V4L2_PIX_FMT_GREY :: u32 where
  "V4L2_PIX_FMT_GREY = v4l2_fourcc (CHR ''G'') (CHR ''R'') (CHR ''E'') (CHR ''Y'')"

text \<open>The two tables of formats; the argument says whether \<open>USE_MJPEG\<close> is defined.\<close>

definition FormatsNormal :: "bool \<Rightarrow> u32 list" where
  "FormatsNormal use_mjpeg =
     [V4L2_PIX_FMT_RGB24, V4L2_PIX_FMT_BGR24, V4L2_PIX_FMT_YUYV, V4L2_PIX_FMT_YVYU] @
     (if use_mjpeg then [V4L2_PIX_FMT_MJPEG] else []) @
     [V4L2_PIX_FMT_Y16, V4L2_PIX_FMT_Y10, V4L2_PIX_FMT_GREY]"

definition FormatsLoop :: "u32 list" where
  "FormatsLoop =
     [V4L2_PIX_FMT_RGB32, V4L2_PIX_FMT_BGR32, V4L2_PIX_FMT_RGB24, V4L2_PIX_FMT_BGR24,
      V4L2_PIX_FMT_YUYV, V4L2_PIX_FMT_YVYU, V4L2_PIX_FMT_GREY]"

definition V4L2_CAP_TIMEPERFRAME :: u32 where "V4L2_CAP_TIMEPERFRAME = 0x1000"

definition MAP_FAILED :: int where "MAP_FAILED = -1"

text \<open>
  \<open>v4l2_mmap\<close> is a parameter as the kernel is: given the history, the length and the
  offset, it answers with the address (or \<open>MAP_FAILED\<close>) and the value of \<open>errno\<close>.
\<close>

type_synonym mapper = "ev list \<Rightarrow> u32 \<Rightarrow> u32 \<Rightarrow> int \<times> int"

definition the_format :: "cmd \<Rightarrow> v4l2_format \<Rightarrow> v4l2_format" where
  "the_format c d = (case c of VIDIOC_S_FMT x \<Rightarrow> x | _ \<Rightarrow> d)"

definition the_parm :: "cmd \<Rightarrow> v4l2_streamparm \<Rightarrow> v4l2_streamparm" where
  "the_parm c d = (case c of VIDIOC_G_PARM x \<Rightarrow> x | VIDIOC_S_PARM x \<Rightarrow> x | _ \<Rightarrow> d)"

definition the_count :: "cmd \<Rightarrow> u32 \<Rightarrow> u32" where
  "the_count c d = (case c of VIDIOC_REQBUFS x \<Rightarrow> x | _ \<Rightarrow> d)"

text \<open>
  The loop \<open>for (i = 0; i < maxFmt; i++)\<close> that offers each format of the table to
  \<open>VIDIOC_S_FMT\<close> until one is accepted.  The result says whether one was.
\<close>

fun try_formats :: "kernel \<Rightarrow> int \<Rightarrow> u32 list \<Rightarrow> v4l2_format \<Rightarrow> env \<Rightarrow> (bool \<times> v4l2_format \<times> env) option" where
  "try_formats K f [] fmt e = Some (False, fmt, e)"
| "try_formats K f (p # ps) fmt e =
     (case DoIoctl K e f (VIDIOC_S_FMT (fmt\<lparr>pixelformat := p\<rparr>)) of
        None \<Rightarrow> None
      | Some (ret, c, e') \<Rightarrow>
          if ret \<ge> 0 then Some (True, the_format c (fmt\<lparr>pixelformat := p\<rparr>), e')
          else try_formats K f ps (the_format c (fmt\<lparr>pixelformat := p\<rparr>)) e')"

text \<open>
  From \<open>/* set format/size */\<close> to the label \<open>gotFormat\<close>: either an error return, or the
  format the kernel has set.
\<close>

definition set_format ::
    "bool \<Rightarrow> kernel \<Rightarrow> V4L2C \<times> env \<Rightarrow> ((int \<times> V4L2C \<times> env) + (v4l2_format \<times> env)) option" where
  "set_format use_mjpeg K = (\<lambda>(v, e).
     let tryFmts = (if isLoopDev v \<noteq> 0 then FormatsLoop else FormatsNormal use_mjpeg);
         fmt0 = \<lparr>pix_width = word_of_int (width v), pix_height = word_of_int (height v),
                 pixelformat = 0\<rparr>
     in do {
       (got, fmt1, e1) \<leftarrow>
          (if wantFormat v \<noteq> 0 \<and> wantFormat v \<in> set tryFmts then do {
             (ret, c, e') \<leftarrow> DoIoctl K e (fd v) (VIDIOC_S_FMT (fmt0\<lparr>pixelformat := wantFormat v\<rparr>));
             Some (ret \<ge> 0, the_format c (fmt0\<lparr>pixelformat := wantFormat v\<rparr>), e')
           } else Some (False, fmt0, e));
       if got then Some (Inr (fmt1, e1))
       else do {
         (ok, fmt2, e2) \<leftarrow> try_formats K (fd v) tryFmts fmt1 e1;
         if \<not> ok then
           Some (Inl (TCL_ERROR, v\<lparr>running := -1, stalled := 0\<rparr>,
                      e2\<lparr>result := PosixErrorObj ''error setting format: '' (errno e2)\<rparr>))
         else if pixelformat fmt2 \<notin> set tryFmts then
           Some (Inl (TCL_ERROR, v,
                      e2\<lparr>result := StringObj ''unable to set supported pixel format''\<rparr>))
         else Some (Inr (fmt2, e2))
       }
     })"

text \<open>\<open>/* try to set frame rate */\<close>.  The quotient is that of two \<open>__u32\<close>.\<close>

definition set_frame_rate :: "kernel \<Rightarrow> V4L2C \<times> env \<Rightarrow> (V4L2C \<times> env) option" where
  "set_frame_rate K = (\<lambda>(v, e).
     let stp0 = \<lparr>capability = 0, numerator = 0, denominator = 0\<rparr>;
         finish = (\<lambda>compFps stp.
           if compFps \<and> numerator stp > 0 then
             (let f = sint (denominator stp div numerator stp)
              in v\<lparr>fps := (if f \<le> 0 then 1 else f)\<rparr>)
           else v)
     in do {
       (r1, c1, e1) \<leftarrow> DoIoctl K e (fd v) (VIDIOC_G_PARM stp0);
       let stp1 = the_parm c1 stp0;
       if r1 \<ge> 0 then
         (if capability stp1 AND V4L2_CAP_TIMEPERFRAME \<noteq> 0 then do {
            let stp2 = stp1\<lparr>numerator := 100, denominator := word_of_int (fps v * 100)\<rparr>;
            (r2, c2, e2) \<leftarrow> DoIoctl K e1 (fd v) (VIDIOC_S_PARM stp2);
            let stp3 = the_parm c2 stp2;
            if r2 \<ge> 0 then do {
              (r3, c3, e3) \<leftarrow> DoIoctl K e2 (fd v) (VIDIOC_G_PARM stp3);
              Some (finish (r3 \<noteq> -1) (the_parm c3 stp3), e3)
            } else Some (finish False stp3, e2)
          } else Some (finish False stp1, e1))
       else Some (v, e1)
     })"

text \<open>
  The loop \<open>while (i < sizeof (v4l2c->vbufs) / sizeof (v4l2c->vbufs[0]))\<close> of
  \<open>/* request buffers */\<close>.  \<open>count\<close> is \<open>req.count\<close>; the first component of the result
  is false when the ioctl failed.
\<close>

partial_function (option) request_loop ::
    "kernel \<Rightarrow> int \<Rightarrow> int \<Rightarrow> u32 \<Rightarrow> env \<Rightarrow> (bool \<times> u32 \<times> env) option" where
  "request_loop K f i count e =
     (if i < 16 then
        DoIoctl K e f (VIDIOC_REQBUFS (word_of_int i)) \<bind> (\<lambda>(ret, c, e').
          if ret < 0 then Some (False, the_count c (word_of_int i), e')
          else if the_count c (word_of_int i) \<le> 0 \<or> the_count c (word_of_int i) > 16
            then request_loop K f (i * 2) (the_count c (word_of_int i)) e'
          else Some (True, the_count c (word_of_int i), e'))
      else Some (True, count, e))"

declare request_loop.simps [code]

text \<open>
  \<open>/* mmap() buffers */\<close>: the first argument counts the rounds that are left, the
  second is \<open>i\<close>.
\<close>

fun map_buffers ::
    "kernel \<Rightarrow> mapper \<Rightarrow> nat \<Rightarrow> nat \<Rightarrow> V4L2C \<times> env \<Rightarrow> ((int \<times> V4L2C \<times> env) + (V4L2C \<times> env)) option" where
  "map_buffers K M 0 i (v, e) = Some (Inr (v, e))"
| "map_buffers K M (Suc k) i (v, e) =
     (case DoIoctl K e (fd v) (VIDIOC_QUERYBUF (vbuf_zero\<lparr>index := of_nat i\<rparr>)) of
        None \<Rightarrow> None
      | Some (ret, c, e1) \<Rightarrow>
          if ret < 0 then
            Some (Inl (TCL_ERROR, v\<lparr>running := -1, stalled := 0\<rparr>,
                       e1\<lparr>result := PosixErrorObj ''error querying buffer: '' (errno e1)\<rparr>))
          else
            let buf = the_buffer c (vbuf_zero\<lparr>index := of_nat i\<rparr>);
                (addr, en) = M (trace e1) (buf_length buf) (buf_offset buf);
                e2 = (emit (Mmap addr (buf_length buf) (buf_offset buf)) e1)\<lparr>errno := en\<rparr>;
                v1 = v\<lparr>vbufs := (vbufs v)[i := \<lparr>start = addr, length_b = buf_length buf\<rparr>]\<rparr>
            in if addr = MAP_FAILED then
                 Some (Inl (TCL_ERROR, v1\<lparr>running := -1, stalled := 0\<rparr>,
                            munmap_all (rev (take i (vbufs v1)))
                              (e2\<lparr>result := PosixErrorObj ''error mapping buffer: '' (errno e2)\<rparr>)))
               else map_buffers K M k (Suc i) (v1, e2))"

text \<open>\<open>/* queue buffers */\<close>; the first component of the result is false when an ioctl failed.\<close>

fun queue_buffers :: "kernel \<Rightarrow> int \<Rightarrow> nat \<Rightarrow> nat \<Rightarrow> env \<Rightarrow> (bool \<times> env) option" where
  "queue_buffers K f 0 i e = Some (True, e)"
| "queue_buffers K f (Suc k) i e =
     (case DoIoctl K e f (VIDIOC_QBUF (vbuf_zero\<lparr>index := of_nat i\<rparr>)) of
        None \<Rightarrow> None
      | Some (ret, c, e1) \<Rightarrow> if ret < 0 then Some (False, e1) else queue_buffers K f k (Suc i) e1)"

text \<open>
  \<open>StartCapture\<close> from \<open>/* request buffers */\<close> to its end, for the format \<open>fmt\<close> that the
  kernel has set.
\<close>

definition StartCapture_buffers ::
    "kernel \<Rightarrow> mapper \<Rightarrow> v4l2_format \<Rightarrow> V4L2C \<times> env \<Rightarrow> (int \<times> V4L2C \<times> env) option" where
  "StartCapture_buffers K M fmt = (\<lambda>(v, e). do {
     (ok, count, e3) \<leftarrow> request_loop K (fd v) 2 0 e;
     if \<not> ok then
       Some (TCL_ERROR, v\<lparr>running := -1, stalled := 0\<rparr>,
             e3\<lparr>result := PosixErrorObj ''error requesting buffers: '' (errno e3)\<rparr>)
     else if count \<le> 0 \<or> count > 16 then
       Some (TCL_ERROR, v\<lparr>running := -1, stalled := 0\<rparr>,
             e3\<lparr>result := StringObj ''unable to get buffers''\<rparr>)
     else do {
       mb \<leftarrow> map_buffers K M (unat count) 0 (v, e3);
       case mb of
         Inl r \<Rightarrow> Some r
       | Inr (v3, e4) \<Rightarrow> do {
           (qok, e5) \<leftarrow> queue_buffers K (fd v3) (unat count) 0 e4;
           if \<not> qok then
             Some (TCL_ERROR, v3\<lparr>running := -1, stalled := 0\<rparr>,
                   munmap_all (take (unat count) (vbufs v3))
                     (e5\<lparr>result := PosixErrorObj ''error querying buffer: '' (errno e5)\<rparr>))
           else do {
             let v4 = v3\<lparr>nvbufs := uint count\<rparr>;
             (r, _, e6) \<leftarrow> DoIoctl K e5 (fd v4) VIDIOC_STREAMON;
             if r < 0 then
               Some (TCL_ERROR, v4\<lparr>running := -1, stalled := 0\<rparr>,
                     munmap_all (take (unat count) (vbufs v4))
                       (e6\<lparr>result := PosixErrorObj ''error starting capture: '' (errno e6)\<rparr>))
             else
               Some (TCL_OK,
                     v4\<lparr>width := sint (pix_width fmt), height := sint (pix_height fmt),
                        running := 1, stalled := 0, bufrdy := -1, bufdone := 0,
                        counters := (0, 0)\<rparr>,
                     emit (CreateFileHandler (fd v4)) e6)
           }
         }
     }
   })"

definition StartCapture :: "bool \<Rightarrow> kernel \<Rightarrow> mapper \<Rightarrow> V4L2C \<times> env \<Rightarrow> (int \<times> V4L2C \<times> env) option" where
  "StartCapture use_mjpeg K M = (\<lambda>(v, e).
     if running v > 0 then Some (TCL_OK, v, e)
     else do {
       sf \<leftarrow> set_format use_mjpeg K (v, e);
       case sf of
         Inl r \<Rightarrow> Some r
       | Inr (fmt, e1) \<Rightarrow> do {
           let v1 = v\<lparr>format := pixelformat fmt,
                      wantFormat := (if wantFormat v = 0 then pixelformat fmt else wantFormat v)\<rparr>;
           (v2, e2) \<leftarrow> set_frame_rate K (v1, e1);
           StartCapture_buffers K M fmt (v2, e2)
         }
     })"

text \<open>The counts the code accepts: \<open>req.count\<close> neither \<open><= 0\<close> nor above the 16 slots.\<close>

definition count_ok :: "u32 \<Rightarrow> bool" where
  "count_ok n = (0 < n \<and> n \<le> 16)"

section \<open>SetControls\<close>

definition V4L2_CTRL_FLAG_READ_ONLY :: u32 where "V4L2_CTRL_FLAG_READ_ONLY = 0x0004"
definition V4L2_CTRL_FLAG_INACTIVE :: u32 where "V4L2_CTRL_FLAG_INACTIVE = 0x0010"

definition V4L2_CTRL_ID2CLASS :: "u32 \<Rightarrow> u32" where
  "V4L2_CTRL_ID2CLASS x = x AND 0x0fff0000"

text \<open>
  \<open>GetZZString\<close>.  The memory behind the contents of a \<open>Tcl_DString\<close> is NUL, so the end of
  the list reads as NUL.  \<open>GetZZString_skip\<close> is the loop, \<open>GetZZString\<close> the C string at the
  pointer the function returns.
\<close>

fun GetZZString_skip :: "string \<Rightarrow> nat \<Rightarrow> string" where
  "GetZZString_skip s 0 = s"
| "GetZZString_skip s (Suc n) =
     (if cstr s = [] then s else GetZZString_skip (drop (List.length (cstr s) + 1) s) n)"

definition GetZZString :: "string \<Rightarrow> int \<Rightarrow> string" where
  "GetZZString s idx =
     (let r = GetZZString_skip s (nat idx)
      in cstr (if r \<noteq> [] \<and> hd r = CHR '','' then tl r else r))"

text \<open>The control a \<open>VCTRL *\<close> points to, and the assignment \<open>vctrl->useOld = n\<close>.\<close>

definition vctrl_at :: "V4L2C \<Rightarrow> vptr \<Rightarrow> VCTRL" where
  "vctrl_at v p = (case p of Ptr_fsize \<Rightarrow> fsize v | Ptr_frate \<Rightarrow> frate v | Ptr_heap a \<Rightarrow> heap v a)"

definition set_useOld :: "vptr \<Rightarrow> int \<Rightarrow> V4L2C \<Rightarrow> V4L2C" where
  "set_useOld p n v =
     (case p of
        Ptr_fsize \<Rightarrow> v\<lparr>fsize := (fsize v)\<lparr>useOld := n\<rparr>\<rparr>
      | Ptr_frate \<Rightarrow> v\<lparr>frate := (frate v)\<lparr>useOld := n\<rparr>\<rparr>
      | Ptr_heap a \<Rightarrow> v\<lparr>heap := (heap v)(a := (heap v a)\<lparr>useOld := n\<rparr>)\<rparr>)"

text \<open>
  What \<open>SetControls\<close> asks of libraries: \<open>Tcl_GetIntFromObj\<close>, \<open>Tcl_GetWideIntFromObj\<close>, and
  \<open>sscanf(fmt, "%dx%d", &w, &h)\<close>, which has a value here when it returns 2.
\<close>

record parsers =
  GetIntFromObj :: "string \<Rightarrow> int option"
  GetWideIntFromObj :: "string \<Rightarrow> int option"
  sscanf_dxd :: "string \<Rightarrow> (int \<times> int) option"

text \<open>The choices of a menu control, as the loop over \<open>k\<close> reads them.\<close>

definition menu_choices :: "VCTRL \<Rightarrow> string list" where
  "menu_choices vc =
     map (\<lambda>k. GetZZString (ds vc) k) [0..maximum (qry vc) - minimum (qry vc)]"

text \<open>The format after the \<open>@\<close> of a frame size, or 0.\<close>

definition size_fourcc :: "string \<Rightarrow> u32" where
  "size_fourcc s =
     (let r = dropWhile (\<lambda>c. c \<noteq> CHR ''@'') (cstr s)
      in if List.length r > 1 then
           (let fcbuf = take 4 (tl r @ replicate 4 (CHR '' ''))
            in v4l2_fourcc (fcbuf ! 0) (fcbuf ! 1) (fcbuf ! 2) (fcbuf ! 3))
         else 0)"

text \<open>The label \<open>errorSet\<close>: the result names the control, the function returns \<open>TCL_ERROR\<close>.\<close>

definition errorSet :: "string \<Rightarrow> V4L2C \<Rightarrow> env \<Rightarrow> (bool \<times> V4L2C \<times> env) option" where
  "errorSet name v e =
     Some (False, v, e\<lparr>result := PosixErrorObj (''error setting \"'' @ name @ ''\": '') (errno e)\<rparr>)"

text \<open>
  The end of a round, after the \<open>switch\<close>: the value \<open>xc\<close> is written to the control \<open>p\<close>
  points to, with \<open>VIDIOC_S_CTRL\<close> when the control is known to need it, else with
  \<open>VIDIOC_S_EXT_CTRLS\<close> and, when that is refused with \<open>EINVAL\<close> and nothing is known yet, a
  second time with \<open>VIDIOC_S_CTRL\<close>.
\<close>

definition write_control ::
    "kernel \<Rightarrow> string \<Rightarrow> vptr \<Rightarrow> v4l2_ext_control \<Rightarrow> V4L2C \<times> env \<Rightarrow> (bool \<times> V4L2C \<times> env) option" where
  "write_control K name p xc = (\<lambda>(v, e).
     let vc = vctrl_at v p;
         xd = \<lparr>cid = xid xc, cvalue = sint (ucast (xvalue xc) :: u32)\<rparr>
     in
     if useOld vc > 0 then
       DoIoctl K e (fd v) (VIDIOC_S_CTRL xd) \<bind> (\<lambda>(r, _, e1).
         if r < 0 then errorSet name v e1 else Some (True, v, e1))
     else
       DoIoctl K e (fd v) (VIDIOC_S_EXT_CTRLS xc) \<bind> (\<lambda>(r, _, e1).
         if r < 0 then
           (if errno e1 = EINVAL \<and> useOld vc < 0 then
              DoIoctl K e1 (fd v) (VIDIOC_S_CTRL xd) \<bind> (\<lambda>(r2, _, e2).
                if r2 = 0 then Some (True, set_useOld p 1 v, e2) else errorSet name v e2)
            else errorSet name v e1)
         else Some (True, v, e1)))"

text \<open>
  One round of the loop of \<open>SetControls\<close>, for the pair \<open>(name, val)\<close>.  The first component
  of the result is true when the loop goes on to the next pair, false when the function
  returns \<open>TCL_ERROR\<close>.
\<close>

definition SetControl ::
    "parsers \<Rightarrow> kernel \<Rightarrow> string \<times> string \<Rightarrow> V4L2C \<times> env \<Rightarrow> (bool \<times> V4L2C \<times> env) option" where
  "SetControl P K = (\<lambda>(name, val) (v, e).
     case nctrl v name of
       None \<Rightarrow> Some (True, v, e)
     | Some p \<Rightarrow>
         let vc = vctrl_at v p;
             xc0 = \<lparr>ctrl_class = V4L2_CTRL_ID2CLASS (qid (qry vc)), xid = qid (qry vc), xvalue = 0\<rparr>
         in
         if flags (qry vc) AND V4L2_CTRL_FLAG_READ_ONLY \<noteq> 0 \<or>
            flags (qry vc) AND V4L2_CTRL_FLAG_INACTIVE \<noteq> 0 then Some (True, v, e)
         else if p = Ptr_fsize then
           (case sscanf_dxd P val of
              Some (w, h) \<Rightarrow>
                if w > 0 \<and> h > 0 \<and> running v \<le> 0
                then Some (True, v\<lparr>width := w, height := h, wantFormat := size_fourcc val\<rparr>, e)
                else Some (True, v, e)
            | None \<Rightarrow> Some (True, v, e))
         else if p = Ptr_frate then
           (case GetIntFromObj P val of
              None \<Rightarrow> Some (True, v, e)
            | Some n \<Rightarrow> if n > 0 \<and> n < 200 then Some (True, v\<lparr>fps := n\<rparr>, e) else Some (True, v, e))
         else
           (case qtype (qry vc) of
              V4L2_CTRL_TYPE_INTEGER \<Rightarrow>
                (case GetIntFromObj P val of
                   None \<Rightarrow> Some (True, v, e)
                 | Some ival \<Rightarrow>
                     write_control K name p (xc0\<lparr>xvalue := ucast (word_of_int ival :: u32)\<rparr>) (v, e))
            | V4L2_CTRL_TYPE_BOOLEAN \<Rightarrow>
                (case GetIntFromObj P val of
                   None \<Rightarrow> Some (True, v, e)
                 | Some ival \<Rightarrow>
                     write_control K name p (xc0\<lparr>xvalue := ucast (word_of_int ival :: u32)\<rparr>) (v, e))
            | V4L2_CTRL_TYPE_INTEGER64 \<Rightarrow>
                (case GetWideIntFromObj P val of
                   None \<Rightarrow> Some (True, v, e)
                 | Some wval \<Rightarrow> write_control K name p (xc0\<lparr>xvalue := word_of_int wval\<rparr>) (v, e))
            | V4L2_CTRL_TYPE_BUTTON \<Rightarrow> write_control K name p xc0 (v, e)
            | V4L2_CTRL_TYPE_MENU \<Rightarrow>
                (case List.find (\<lambda>k. GetZZString (ds vc) k \<noteq> [] \<and> GetZZString (ds vc) k = cstr val)
                        [0..maximum (qry vc) - minimum (qry vc)] of
                   None \<Rightarrow> Some (True, v, e)
                 | Some k \<Rightarrow>
                     write_control K name p
                       (xc0\<lparr>xvalue := ucast (word_of_int (k + minimum (qry vc)) :: u32)\<rparr>) (v, e))
            | _ \<Rightarrow> Some (True, v, e)))"

text \<open>\<open>SetControls\<close> for \<open>objv\<close> as a list of pairs: \<open>objc\<close> is even when \<open>V4l2ObjCmd\<close> calls it.\<close>

fun SetControls ::
    "parsers \<Rightarrow> kernel \<Rightarrow> (string \<times> string) list \<Rightarrow> V4L2C \<times> env \<Rightarrow> (int \<times> V4L2C \<times> env) option" where
  "SetControls P K [] (v, e) = Some (TCL_OK, v, e)"
| "SetControls P K (p # ps) (v, e) =
     (case SetControl P K p (v, e) of
        None \<Rightarrow> None
      | Some (True, v', e') \<Rightarrow> SetControls P K ps (v', e')
      | Some (False, v', e') \<Rightarrow> Some (TCL_ERROR, v', e'))"

text \<open>
  The pairs that the description of \<open>parameters\<close> calls skipped: the name is unknown; the
  control is read-only or inactive; the value is no integer (no wide integer) for a control
  that takes one; the value is no entry of the choices of a menu control of the device.
\<close>

definition is_heap :: "vptr \<Rightarrow> bool" where
  "is_heap p = (case p of Ptr_heap a \<Rightarrow> True | _ \<Rightarrow> False)"

definition skippable :: "parsers \<Rightarrow> V4L2C \<Rightarrow> string \<Rightarrow> string \<Rightarrow> bool" where
  "skippable P v name val =
     (case nctrl v name of
        None \<Rightarrow> True
      | Some p \<Rightarrow>
          let vc = vctrl_at v p in
          flags (qry vc) AND V4L2_CTRL_FLAG_READ_ONLY \<noteq> 0 \<or>
          flags (qry vc) AND V4L2_CTRL_FLAG_INACTIVE \<noteq> 0 \<or>
          (p = Ptr_frate \<and> GetIntFromObj P val = None) \<or>
          (is_heap p \<and>
            ((qtype (qry vc) = V4L2_CTRL_TYPE_INTEGER \<or> qtype (qry vc) = V4L2_CTRL_TYPE_BOOLEAN)
                \<and> GetIntFromObj P val = None \<or>
             qtype (qry vc) = V4L2_CTRL_TYPE_INTEGER64 \<and> GetWideIntFromObj P val = None \<or>
             qtype (qry vc) = V4L2_CTRL_TYPE_MENU \<and> cstr val \<notin> set (menu_choices vc))))"

section \<open>Sequences of operations on a session\<close>

text \<open>
  The functions that assign to \<open>counters\<close>, \<open>bufrdy\<close> or \<open>bufdone\<close> of an open session are
  \<open>StartCapture\<close>, \<open>StopCapture\<close>, \<open>BufferReady\<close> and \<open>GetImage\<close>.  An operation is a call of
  one of them, of \<open>SetControls\<close>, or of the orientation command.  \<open>GetImage\<close> comes with the
  control structure of the interpreter at the call, its flags and its image name.
  \<open>BufferReady\<close> comes with its mask and with what the callback script does when it is
  evaluated: operations of its own, wake-ups that an \<open>update\<close> of the script lets in
  among them, and the completion code it returns.
\<close>

datatype op =
    Op_StartCapture
  | Op_StopCapture
  | Op_GetImage V4L2I int "string option"
  | Op_SetControls "(string \<times> string) list"
  | Op_orientation "string list"
  | Op_BufferReady int "op list" int

text \<open>What surrounds the program: Tk, the conversion, the parsers, the kernel, \<open>mmap\<close>.\<close>

record world =
  w_tk :: tk
  w_convert :: converter
  w_parsers :: parsers
  w_kernel :: kernel
  w_mapper :: mapper
  w_mjpeg :: bool

fun step :: "world \<Rightarrow> op \<Rightarrow> V4L2C \<times> env \<Rightarrow> (V4L2C \<times> env) option"
  and run :: "world \<Rightarrow> op list \<Rightarrow> V4L2C \<times> env \<Rightarrow> (V4L2C \<times> env) option" where
  "step W Op_StartCapture s = map_option snd (StartCapture (w_mjpeg W) (w_kernel W) (w_mapper W) s)"
| "step W Op_StopCapture s = map_option snd (StopCapture (w_kernel W) s)"
| "step W (Op_GetImage i flgs arg) s =
     Some (snd (snd (GetImage (w_tk W) (w_convert W) flgs arg (i, s))))"
| "step W (Op_SetControls ps) s = map_option snd (SetControls (w_parsers W) (w_kernel W) ps s)"
| "step W (Op_orientation args) s =
     Some (snd (CMD_orientation (GetIntFromObj (w_parsers W)) args s))"
| "step W (Op_BufferReady rmask cb rc) s =
     BufferReady (w_kernel W) (\<lambda>script s'. map_option (\<lambda>s''. (rc, s'')) (run W cb s')) rmask s"
| "run W [] s = Some s"
| "run W (x # xs) s = (case step W x s of None \<Rightarrow> None | Some s' \<Rightarrow> run W xs s')"

text \<open>The number of wake-ups in a sequence, those inside callbacks included.\<close>

fun frames :: "op \<Rightarrow> nat" where
  "frames (Op_BufferReady rmask cb rc) = Suc (sum_list (map frames cb))"
| "frames _ = 0"

text \<open>
  The relation of the two counters, frames captured and frames read: the second is not
  above the first, and is below it while a ready frame has not been read.  Both are
  between 0 and \<open>n\<close>.
\<close>

definition counted :: "int \<Rightarrow> V4L2C \<Rightarrow> bool" where
  "counted n v =
     (0 \<le> sint (snd (counters v)) \<and> sint (snd (counters v)) \<le> sint (fst (counters v)) \<and>
      sint (fst (counters v)) \<le> n \<and>
      (bufrdy v \<ge> 0 \<and> bufdone v = 0 \<longrightarrow> sint (snd (counters v)) < sint (fst (counters v))))"

text \<open>
  What the operations other than the wake-up and the reading of a frame do to the
  counters and the two marks of the ready frame: they leave all three, or they forget
  the ready frame.
\<close>

definition keeps :: "V4L2C \<Rightarrow> V4L2C \<Rightarrow> bool" where
  "keeps v v' = (counters v' = counters v \<and>
     (bufrdy v' = bufrdy v \<and> bufdone v' = bufdone v \<or> bufrdy v' = -1))"


fun collapse_spec :: "bool \<Rightarrow> string \<Rightarrow> string" where
  "collapse_spec after [] = []"
| "collapse_spec after (c # r) =
     (if c = CHR ''-'' \<and> after then collapse_spec True r
      else c # collapse_spec (c = CHR ''-'') r)"



section \<open>Example sessions and kernels\<close>

text \<open>
  A session as \<open>v4l2 open\<close> leaves it, an environment with no history, and a kernel that
  accepts every request and leaves its argument as it is.
\<close>

definition session0 :: V4L2C where
  "session0 = \<lparr>running = 0, stalled = 0, format = 0, wantFormat = 0, greyshift = 4, fd = 3,
     isLoopDev = 0, loopFormat = 0, mirror = 0, rotate_deg = 0, bufrdy = -1, bufdone = 0,
     width = 640, height = 480, loopWidth = 0, loopHeight = 0, fps = 15,
     devId = ''vdev0'', devName = ''/dev/video0'', cbCmdLen = 2, cbCmd = ''cb'',
     ctrl = [0 \<mapsto> Ptr_fsize, 1 \<mapsto> Ptr_frate],
     nctrl = [''frame-size'' \<mapsto> Ptr_fsize, ''frame-rate'' \<mapsto> Ptr_frate],
     heap = (\<lambda>_. \<lparr>qry = \<lparr>qid = 0, qtype = V4L2_CTRL_TYPE_INTEGER, qname = [], minimum = 0,
        maximum = 0, step = 0, default_value = 0, flags = 0\<rparr>, useOld = 0, ds = []\<rparr>),
     fsize = \<lparr>qry = \<lparr>qid = 0, qtype = V4L2_CTRL_TYPE_MENU, qname = ''frame-size'', minimum = 0,
        maximum = 0, step = 0, default_value = 0, flags = 0\<rparr>, useOld = 0,
        ds = ''640x480'' @ [CHR 0x00]\<rparr>,
     frate = \<lparr>qry = \<lparr>qid = 1, qtype = V4L2_CTRL_TYPE_INTEGER, qname = ''frame-rate'', minimum = 1,
        maximum = 200, step = 1, default_value = 15, flags = 0\<rparr>, useOld = 0, ds = []\<rparr>,
     counters = (0, 0), nvbufs = 0,
     vbufs = replicate 16 \<lparr>start = 0, length_b = 0\<rparr>\<rparr>"

definition env0 :: env where
  "env0 = \<lparr>trace = [], errno = 0, result = EmptyObj\<rparr>"

definition kernel_ok :: kernel where
  "kernel_ok t f c = (0, 0, c)"

text \<open>The same session while capturing with two buffers, seven frames in, three read.\<close>

definition capturing0 :: V4L2C where
  "capturing0 = session0\<lparr>running := 1, stalled := 1, bufrdy := 1, bufdone := 1,
     counters := (7, 3), nvbufs := 2\<rparr>"

text \<open>An integer parser that knows a few words, standing for \<open>Tcl_GetIntFromObj\<close>.\<close>

definition GetInt0 :: "string \<Rightarrow> int option" where
  "GetInt0 s =
     (if s = ''-90'' then Some (-90)
      else if s = ''100'' then Some 100
      else if s = ''25'' then Some 25
      else if s = ''200'' then Some 200
      else if s = ''500'' then Some 500
      else None)"


text \<open>An allocator that never fails.\<close>

definition alloc_ok :: "int \<Rightarrow> bool" where
  "alloc_ok n = True"

text \<open>A packed RGB block of the given size over the given bytes.\<close>

definition rgb_block :: "int \<Rightarrow> int \<Rightarrow> u8 list \<Rightarrow> Tk_PhotoImageBlock" where
  "rgb_block w h bytes =
     \<lparr>pixelPtr = bytes, blk_width = w, blk_height = h, pitch = w * 3, pixelSize = 3,
      offset = (\<lambda>k. int k)\<rparr>"







text \<open>Tk loaded, with a main window and one photo image, \<open>img\<close>.\<close>

definition tk0 :: tk where
  "tk0 = \<lparr>PkgRequireTk = True, MainWindow = True, FindPhoto = (\<lambda>n. n = ''img'')\<rparr>"

definition interp0 :: V4L2I where
  "interp0 = \<lparr>idCount = 1, checkedTk = 1\<rparr>"

text \<open>A conversion that always succeeds and answers 1, as the photo branch does.\<close>

definition convert_ok :: converter where
  "convert_ok v flgs arg e = (TCL_OK, True, e\<lparr>result := IntObj 1\<rparr>)"



definition mapper_ok :: mapper where
  "mapper_ok t len off = (4096, 0)"


text \<open>
  Parsers that know a few words, and a session with three controls of the device beside the
  two of its own: an integer, a read-only integer, and a menu of three labels.
\<close>

definition scan0 :: "string \<Rightarrow> (int \<times> int) option" where
  "scan0 s = (if s = ''123x45'' then Some (123, 45) else None)"

definition parsers0 :: parsers where
  "parsers0 = \<lparr>GetIntFromObj = GetInt0, GetWideIntFromObj = GetInt0, sscanf_dxd = scan0\<rparr>"

definition ctl_brightness :: VCTRL where
  "ctl_brightness = \<lparr>qry = \<lparr>qid = 0x00980900, qtype = V4L2_CTRL_TYPE_INTEGER,
     qname = ''brightness'', minimum = 0, maximum = 255, step = 1, default_value = 128,
     flags = 0\<rparr>, useOld = 0, ds = []\<rparr>"

definition ctl_gain :: VCTRL where
  "ctl_gain = \<lparr>qry = \<lparr>qid = 0x00980913, qtype = V4L2_CTRL_TYPE_INTEGER,
     qname = ''gain'', minimum = 0, maximum = 255, step = 1, default_value = 0,
     flags = 0x0004\<rparr>, useOld = 0, ds = []\<rparr>"

definition ctl_powerline :: VCTRL where
  "ctl_powerline = \<lparr>qry = \<lparr>qid = 0x00980918, qtype = V4L2_CTRL_TYPE_MENU,
     qname = ''power-line-frequency'', minimum = 0, maximum = 2, step = 1, default_value = 1,
     flags = 0\<rparr>, useOld = 0,
     ds = ''disabled'' @ [CHR 0x00] @ ''50-hz'' @ [CHR 0x00] @ ''60-hz'' @ [CHR 0x00]\<rparr>"

definition session_ctl :: V4L2C where
  "session_ctl = session0\<lparr>
     nctrl := [''frame-size'' \<mapsto> Ptr_fsize, ''frame-rate'' \<mapsto> Ptr_frate,
               ''brightness'' \<mapsto> Ptr_heap 0, ''gain'' \<mapsto> Ptr_heap 1,
               ''power-line-frequency'' \<mapsto> Ptr_heap 2],
     heap := (\<lambda>a. if a = 0 then ctl_brightness else if a = 1 then ctl_gain else ctl_powerline)\<rparr>"

text \<open>A kernel of a fast camera: the frame period it reports is always 1/1000 s.\<close>

definition kernel_fast :: kernel where
  "kernel_fast t f c =
     (case c of
        VIDIOC_G_PARM p \<Rightarrow> (0, 0, VIDIOC_G_PARM \<lparr>capability = 0x1000, numerator = 1, denominator = 1000\<rparr>)
      | _ \<Rightarrow> (0, 0, c))"

text \<open>The surroundings of the example sessions.\<close>

definition world0 :: world where
  "world0 = \<lparr>w_tk = tk0, w_convert = convert_ok, w_parsers = parsers0, w_kernel = kernel_ok,
     w_mapper = mapper_ok, w_mjpeg = False\<rparr>"

text \<open>
  A session that starts, gets a frame that its callback reads twice, gets a second frame
  that is read after the callback, and stops.
\<close>

definition ops0 :: "op list" where
  "ops0 = [Op_StartCapture,
           Op_BufferReady 2 [Op_GetImage interp0 0 None, Op_GetImage interp0 0 None] 0,
           Op_BufferReady 2 [] 0, Op_GetImage interp0 0 None, Op_StopCapture]"


section \<open>Properties\<close>

subsection \<open>Auxiliary facts\<close>

lemma DoIoctl_returns:
  "\<not> (fst (K (trace e) f c) = -1 \<and> fst (snd (K (trace e) f c)) = EINTR) \<Longrightarrow>
   DoIoctl K e f c = Some (fst (K (trace e) f c), snd (snd (K (trace e) f c)),
      (emit (Ioctl f c) e)\<lparr>errno := fst (snd (K (trace e) f c))\<rparr>)"
  by (subst DoIoctl.simps) (auto simp: Let_def split: prod.splits)

lemma session0_sel [simp]:
  "running session0 = 0" "fd session0 = 3" "nvbufs session0 = 0" "counters session0 = (0, 0)"
  "bufrdy session0 = -1" "stalled session0 = 0" "bufdone session0 = 0" "fps session0 = 15"
  "vbufs session0 = replicate 16 \<lparr>start = 0, length_b = 0\<rparr>"
  "devId session0 = ''vdev0''" "cbCmd session0 = ''cb''" "cbCmdLen session0 = 2"
  by (simp_all add: session0_def)

lemma StopCapture_session0:
  "StopCapture kernel_ok (session0, env0) = Some (TCL_OK, session0, env0)"
  by (simp add: StopCapture_def)

lemma StopCapture_capturing0:
  "StopCapture kernel_ok (capturing0, env0)
     = Some (TCL_OK, capturing0\<lparr>running := 0, stalled := 0, bufrdy := -1, bufdone := 0\<rparr>,
         \<lparr>trace = [DeleteFileHandler 3, Ioctl 3 VIDIOC_STREAMOFF, Munmap 0 0, Munmap 0 0,
                    Ioctl 3 (VIDIOC_REQBUFS 0)], errno = 0, result = EmptyObj\<rparr>)"
  by (simp add: StopCapture_def DoIoctl_returns kernel_ok_def capturing0_def env0_def
        munmap_all_def emit_def EINTR_def numeral_2_eq_2)

subsection \<open>Stopping\<close>

text \<open>
  C3. \<open>StopCapture\<close> on a session that is not capturing returns \<open>TCL_OK\<close> and changes neither
  the session nor the environment.  Every call that returns returns \<open>TCL_OK\<close>, leaves both
  statistic counters as they were, and leaves a session on which a second call changes
  nothing; when the session was capturing, the call resets \<open>running\<close>, the index of the
  ready buffer, the stalled flag and the buffer-done marker.  A call on a capturing
  session returns as soon as its two ioctls do.
\<close>

theorem StopCapture_stopped_noop_keeps_counters:
  "(running v \<le> 0 \<longrightarrow> StopCapture K (v, e) = Some (TCL_OK, v, e)) \<and>
   (\<forall>r v' e'. StopCapture K (v, e) = Some (r, v', e') \<longrightarrow>
      r = TCL_OK \<and> counters v' = counters v \<and>
      StopCapture K (v', e') = Some (TCL_OK, v', e') \<and>
      (running v > 0 \<longrightarrow>
         running v' = 0 \<and> bufrdy v' = -1 \<and> stalled v' = 0 \<and> bufdone v' = 0)) \<and>
   (\<forall>r1 c1 e1 r2 c2 e2.
      running v > 0 \<and>
      DoIoctl K (emit (DeleteFileHandler (fd v)) e) (fd v) VIDIOC_STREAMOFF = Some (r1, c1, e1) \<and>
      DoIoctl K (munmap_all (take (nat (nvbufs v)) (vbufs v)) e1) (fd v) (VIDIOC_REQBUFS 0)
        = Some (r2, c2, e2) \<longrightarrow>
      StopCapture K (v, e)
        = Some (TCL_OK, v\<lparr>running := 0, stalled := 0, bufrdy := -1, bufdone := 0\<rparr>, e2))"
  by (auto simp: StopCapture_def Let_def split: if_splits Option.bind_splits prod.splits)

theorem StopCapture_witness:
  "running session0 \<le> 0 \<and>
   StopCapture kernel_ok (session0, env0) = Some (TCL_OK, session0, env0) \<and>
   0 < running capturing0 \<and> counters capturing0 = (7, 3) \<and>
   (\<exists>v' e'. StopCapture kernel_ok (capturing0, env0) = Some (TCL_OK, v', e') \<and>
      counters v' = (7, 3) \<and> running v' = 0 \<and> bufrdy v' = -1 \<and> stalled v' = 0 \<and>
      bufdone v' = 0 \<and> StopCapture kernel_ok (v', e') = Some (TCL_OK, v', e'))"
proof -
  have a: "running session0 \<le> 0" by simp
  have b: "0 < running capturing0" "counters capturing0 = (7, 3)"
    by (simp_all add: capturing0_def)
  from StopCapture_stopped_noop_keeps_counters [of session0 kernel_ok env0] a
  have c: "StopCapture kernel_ok (session0, env0) = Some (TCL_OK, session0, env0)"
    by blast
  from StopCapture_stopped_noop_keeps_counters [of capturing0 kernel_ok env0]
    StopCapture_capturing0 b
  have "\<exists>v' e'. StopCapture kernel_ok (capturing0, env0) = Some (TCL_OK, v', e') \<and>
      counters v' = (7, 3) \<and> running v' = 0 \<and> bufrdy v' = -1 \<and> stalled v' = 0 \<and>
      bufdone v' = 0 \<and> StopCapture kernel_ok (v', e') = Some (TCL_OK, v', e')"
    by metis
  with a b c show ?thesis by blast
qed

subsection \<open>Orientation\<close>

text \<open>
  C8.  The code at \<open>v4l2 orientation dev -90\<close>: the command reduces the angle with
  \<open>degrees % 360\<close> and then compares with the sector boundaries of \<open>[0, 360)\<close>, but the
  remainder of C keeps the sign of \<open>-90\<close>, so the first comparison \<open>degrees < 45\<close> holds and
  the rotation stored is 0.  The equivalent angle in \<open>[0, 360)\<close> is 270, and the snapping
  the claim states gives 270.
\<close>

theorem orientation_minus_90:
  "CMD_orientation GetInt0 [''-90''] (session0, env0) = (TCL_OK, session0\<lparr>rotate_deg := 0\<rparr>, env0)
   \<and> c_rem (-90) 360 = -90 \<and> (-90) mod 360 = (270 :: int) \<and> snap_spec (-90) = 270"
  by (simp add: CMD_orientation_def GetInt0_def c_rem_def snap_spec_def Let_def)

text \<open>
  What the command stores for every integer \<open>d\<close>: a rotation in \<open>{0, 90, 180, 270}\<close>, which
  for \<open>d \<ge> 0\<close> is the one the sector boundaries give to \<open>d\<close> modulo 360, as the claim states,
  and for every negative \<open>d\<close> is 0.
\<close>

lemma orientation_snaps:
  "GetInt a = Some d \<longrightarrow>
     CMD_orientation GetInt [a] (v, e)
       = (TCL_OK, v\<lparr>rotate_deg := (if d < 0 then 0 else snap_spec d)\<rparr>, e) \<and>
     (if d < 0 then 0 else snap_spec d) \<in> {0, 90, 180, 270}"
proof -
  have neg: "c_rem d 360 \<le> 0" if "d < 0"
    using that by (simp add: c_rem_def sgn_if)
  have pos: "c_rem d 360 = d mod 360" if "0 \<le> d"
    using that by (cases "d = 0") (simp_all add: c_rem_def sgn_if)
  have range: "0 \<le> d mod 360" "d mod 360 < 360"
    by simp_all
  show ?thesis
  proof (cases "d < 0")
    case True
    with neg show ?thesis
      by (auto simp: CMD_orientation_def Let_def)
  next
    case False
    with pos range show ?thesis
      by (auto simp: CMD_orientation_def Let_def snap_spec_def)
  qed
qed

lemma orientation_snaps_example:
  "GetInt0 ''100'' = Some 100 \<and>
   CMD_orientation GetInt0 [''100''] (session0, env0) = (TCL_OK, session0\<lparr>rotate_deg := 90\<rparr>, env0)"
proof -
  have a: "GetInt0 ''100'' = Some 100" by (simp add: GetInt0_def)
  have b: "snap_spec 100 = 90" by (simp add: snap_spec_def)
  from orientation_snaps [of GetInt0 "''100''" 100 session0 env0] a b
  show ?thesis by simp
qed

subsection \<open>Names of controls\<close>







lemma tolower_ascii: "(of_char c :: nat) < 128 \<Longrightarrow> (of_char (tolower c) :: nat) < 128"
  by (auto simp: tolower_def Let_def)











lemma collapse_spec_Cons: "collapse_spec False (c # r) = c # collapse_spec (c = CHR ''-'') r"
  by simp

lemma collapse_spec_other: "d \<noteq> CHR ''-'' \<Longrightarrow> collapse_spec b (d # r) = collapse_spec False (d # r)"
  by simp





lemma cstr_take_cstr: "cstr (take (List.length (cstr b)) b) = cstr b"
  unfolding cstr_def by (induction b) auto








subsection \<open>Round trip through packed YUV\<close>

lemma uint_sat: "0 \<le> i \<Longrightarrow> i \<le> 255 \<Longrightarrow> uint (sat i) = i"
  by (simp add: sat_def uint_word_of_int)

lemma sat_128: "sat 128 = 128"
  by (simp add: sat_def)

lemma sat_uint: "sat (uint (y :: u8)) = y"
proof (cases "uint y \<ge> 255")
  case True
  moreover have "uint y < 256" using uint_lt2p [of y] by simp
  ultimately have "uint y = 255" by simp
  then have "word_of_int 255 = (word_of_int (uint y) :: u8)" by simp
  then have "(255 :: u8) = y" by simp
  with True show ?thesis by (simp add: sat_def)
next
  case False
  then show ?thesis by (simp add: sat_def)
qed

lemma grey_luma_range:
  assumes "0 \<le> v" "v \<le> (255::int)"
  shows "16 \<le> drop_bit 14 (14080 * v) + 16" "drop_bit 14 (14080 * v) + 16 \<le> 235"
    "\<bar>drop_bit 14 (14080 * v) + 16 - v\<bar> \<le> 20"
  using assms by (simp_all add: drop_bit_eq_div)

lemma FromYUV_grey:
  "FromYUV_loop isvu (List.length ys) (concat (map (\<lambda>y. [y, 128, y, 128]) ys))
     = Some (concat (map (\<lambda>y. [y, y, y, y, y, y]) ys))"
  by (induction ys) (simp_all add: sat_uint)

lemma ToYUV_grey:
  "(\<And>j k. j < 2 * List.length vs \<Longrightarrow> k < 3 \<Longrightarrow>
      peek (pixelPtr blk) (pos + int j * pixelSize blk + offset blk k) = Some (uint (vs ! (j div 2))))
   \<Longrightarrow> ToYUV_loop blk isvu (List.length vs) pos
     = Some (concat (map (\<lambda>v. [grey_rt v, 128, grey_rt v, 128]) vs))"
proof (induction vs arbitrary: pos)
  case Nil
  then show ?case by simp
next
  case (Cons v vs)
  have p0: "peek (pixelPtr blk) (pos + offset blk k) = Some (uint v)" if "k < 3" for k
    using Cons.prems [of 0 k] that by simp
  have p1: "peek (pixelPtr blk) (pos + pixelSize blk + offset blk k) = Some (uint v)" if "k < 3" for k
    using Cons.prems [of 1 k] that by simp
  have rest: "ToYUV_loop blk isvu (List.length vs) (pos + pixelSize blk + pixelSize blk)
     = Some (concat (map (\<lambda>v. [grey_rt v, 128, grey_rt v, 128]) vs))"
  proof (rule Cons.IH)
    fix j k
    assume j: "j < 2 * List.length vs" and k: "k < (3::nat)"
    have "peek (pixelPtr blk) (pos + int (j + 2) * pixelSize blk + offset blk k)
        = Some (uint ((v # vs) ! ((j + 2) div 2)))"
      using j k by (intro Cons.prems) simp_all
    then show "peek (pixelPtr blk) (pos + pixelSize blk + pixelSize blk + int j * pixelSize blk + offset blk k)
        = Some (uint (vs ! (j div 2)))"
      by (simp add: algebra_simps)
  qed
  show ?case
    using p0 [of 0] p0 [of 1] p0 [of 2] p1 [of 0] p1 [of 1] p1 [of 2] rest
    by (simp add: Let_def grey_rt_def sat_128)
qed


text \<open>
  C6, as the claim states it, fails: a black pixel pair comes back as the grey level 16,
  an error of 16 in every channel.  \<open>ConvertToYUV\<close> writes luma in the range 16 to 235,
  \<open>ConvertFromYUV\<close> reads it as full range.
\<close>

theorem YUV_grey_roundtrip_counterexample:
  "ConvertToYUV alloc_ok (rgb_block 2 1 [0, 0, 0, 0, 0, 0]) False = Some [16, 128, 16, 128] \<and>
   ConvertFromYUV alloc_ok [16, 128, 16, 128] 2 1 False = Some [16, 16, 16, 16, 16, 16] \<and>
   \<not> \<bar>uint (16 :: u8) - uint (0 :: u8)\<bar> \<le> 2"
  by code_simp

text \<open>
  C6, amended.  Take an image of even width in which both pixels of every horizontally
  adjacent pair have the same grey value \<open>v\<close> in all three channels, and let both
  allocations succeed.  Then \<open>ConvertToYUV\<close> followed by \<open>ConvertFromYUV\<close> with the
  same byte order returns, for every pixel of the pair and every channel, the value
  \<open>((14080 * v) >> 14) + 16\<close>, which lies in \<open>[16, 235]\<close> and differs from \<open>v\<close> by at most 20.
\<close>

theorem YUV_grey_roundtrip:
  "pitch blk = blk_width blk * pixelSize blk \<Longrightarrow>
   even (blk_width blk) \<Longrightarrow>
   blk_width blk * blk_height blk = 2 * int (List.length vs) \<Longrightarrow>
   alloc (blk_width blk * blk_height blk * 2) \<Longrightarrow>
   alloc (blk_width blk * blk_height blk * 3) \<Longrightarrow>
   (\<forall>j < 2 * List.length vs. \<forall>k < 3.
      peek (pixelPtr blk) (int j * pixelSize blk + offset blk k) = Some (uint (vs ! (j div 2)))) \<Longrightarrow>
   (\<exists>yuv. ConvertToYUV alloc blk isvu = Some yuv \<and>
      ConvertFromYUV alloc yuv (blk_width blk) (blk_height blk) isvu
        = Some (concat (map (\<lambda>v. [grey_rt v, grey_rt v, grey_rt v,
                                   grey_rt v, grey_rt v, grey_rt v]) vs))) \<and>
   (\<forall>v. 16 \<le> uint (grey_rt v) \<and> uint (grey_rt v) \<le> 235 \<and> \<bar>uint (grey_rt v) - uint v\<bar> \<le> 20)"
proof (intro conjI allI)
  assume p: "pitch blk = blk_width blk * pixelSize blk"
    and n: "blk_width blk * blk_height blk = 2 * int (List.length vs)"
    and a2: "alloc (blk_width blk * blk_height blk * 2)"
    and a3: "alloc (blk_width blk * blk_height blk * 3)"
    and g: "\<forall>j < 2 * List.length vs. \<forall>k < 3.
      peek (pixelPtr blk) (int j * pixelSize blk + offset blk k) = Some (uint (vs ! (j div 2)))"
  let ?yuv = "concat (map (\<lambda>v. [grey_rt v, 128, grey_rt v, 128]) vs)"
  have "ToYUV_loop blk isvu (List.length vs) 0 = Some ?yuv"
    using g by (intro ToYUV_grey) simp
  with p n a2 have to: "ConvertToYUV alloc blk isvu = Some ?yuv"
    by (simp add: ConvertToYUV_def Let_def)
  have "FromYUV_loop isvu (List.length (map grey_rt vs))
          (concat (map (\<lambda>y. [y, 128, y, 128]) (map grey_rt vs)))
        = Some (concat (map (\<lambda>y. [y, y, y, y, y, y]) (map grey_rt vs)))"
    by (rule FromYUV_grey)
  then have "FromYUV_loop isvu (List.length vs) ?yuv
        = Some (concat (map (\<lambda>v. [grey_rt v, grey_rt v, grey_rt v,
                                   grey_rt v, grey_rt v, grey_rt v]) vs))"
    by (simp add: comp_def)
  with n a3 have "ConvertFromYUV alloc ?yuv (blk_width blk) (blk_height blk) isvu
        = Some (concat (map (\<lambda>v. [grey_rt v, grey_rt v, grey_rt v,
                                   grey_rt v, grey_rt v, grey_rt v]) vs))"
    by (simp add: ConvertFromYUV_def Let_def)
  with to show "\<exists>yuv. ConvertToYUV alloc blk isvu = Some yuv \<and>
      ConvertFromYUV alloc yuv (blk_width blk) (blk_height blk) isvu
        = Some (concat (map (\<lambda>v. [grey_rt v, grey_rt v, grey_rt v,
                                   grey_rt v, grey_rt v, grey_rt v]) vs))"
    by blast
next
  fix v :: u8
  have r: "0 \<le> uint v" "uint v \<le> 255"
    using uint_lt2p [of v] by simp_all
  have u: "uint (grey_rt v) = drop_bit 14 (14080 * uint v) + 16"
    unfolding grey_rt_def using grey_luma_range [OF r] by (intro uint_sat) simp_all
  show "16 \<le> uint (grey_rt v)" "uint (grey_rt v) \<le> 235" "\<bar>uint (grey_rt v) - uint v\<bar> \<le> 20"
    using grey_luma_range [OF r] unfolding u by simp_all
qed

lemma grey200_pixels:
  "\<forall>j < 2 * List.length [200 :: u8]. \<forall>k < 3.
      peek (pixelPtr (rgb_block 2 1 [200, 200, 200, 200, 200, 200]))
        (int j * pixelSize (rgb_block 2 1 [200, 200, 200, 200, 200, 200])
           + offset (rgb_block 2 1 [200, 200, 200, 200, 200, 200]) k)
      = Some (uint ([200 :: u8] ! (j div 2)))"
  by (auto simp: rgb_block_def peek_def less_Suc_eq numeral_2_eq_2 numeral_3_eq_3)

lemma alloc_ok: "alloc_ok n"
  by (simp add: alloc_ok_def)

lemma grey_rt_200: "grey_rt 200 = 187"
  by code_simp

theorem YUV_grey_roundtrip_witness:
  "pitch (rgb_block 2 1 [200, 200, 200, 200, 200, 200])
     = blk_width (rgb_block 2 1 [200, 200, 200, 200, 200, 200])
       * pixelSize (rgb_block 2 1 [200, 200, 200, 200, 200, 200]) \<and>
   even (blk_width (rgb_block 2 1 [200, 200, 200, 200, 200, 200])) \<and>
   (\<exists>yuv. ConvertToYUV alloc_ok (rgb_block 2 1 [200, 200, 200, 200, 200, 200]) True = Some yuv \<and>
      ConvertFromYUV alloc_ok yuv 2 1 True = Some [187, 187, 187, 187, 187, 187])"
proof -
  let ?b = "rgb_block 2 1 [200, 200, 200, 200, 200, 200]"
  have h: "pitch ?b = blk_width ?b * pixelSize ?b" "even (blk_width ?b)"
    "blk_width ?b * blk_height ?b = 2 * int (List.length [200 :: u8])"
    "blk_width ?b = 2" "blk_height ?b = 1"
    by (simp_all add: rgb_block_def)
  from YUV_grey_roundtrip [of ?b "[200]" alloc_ok True, OF h(1) h(2) h(3) alloc_ok alloc_ok grey200_pixels]
  have "\<exists>yuv. ConvertToYUV alloc_ok ?b True = Some yuv \<and>
      ConvertFromYUV alloc_ok yuv 2 1 True = Some [187, 187, 187, 187, 187, 187]"
    by (simp add: grey_rt_200 h)
  with h show ?thesis by blast
qed

subsection \<open>The file handler\<close>

lemma StopCapture_Some:
  "StopCapture K (v, e) = Some (r, v', e') \<Longrightarrow>
   r = TCL_OK \<and>
   v' = (if running v > 0 then v\<lparr>running := 0, stalled := 0, bufrdy := -1, bufdone := 0\<rparr> else v)"
  by (auto simp: StopCapture_def Let_def split: if_splits Option.bind_splits prod.splits)

lemma StopCapture_idle: "running v \<le> 0 \<Longrightarrow> StopCapture K (v, e) = Some (TCL_OK, v, e)"
  by (simp add: StopCapture_def)

lemma captureError_Some:
  "captureError K (v, e) = Some (v', e') \<Longrightarrow>
   v' = (if running v > 0 then v\<lparr>bufrdy := -1, bufdone := 0\<rparr> else v)
          \<lparr>running := -1, stalled := 0,
            cbCmd := DStringAppendElement
              (DStringAppendElement (take (cbCmdLen v) (cbCmd v)) (devId v)) ''error''\<rparr>"
  by (auto simp: captureError_def split: Option.bind_splits prod.splits dest!: StopCapture_Some)
















subsection \<open>Reading an image when there is none\<close>

text \<open>
  C10.  While no buffer is ready (\<open>bufrdy < 0\<close>): \<open>GetImage\<close> with the name of a photo
  image, Tk being available and the main window alive, returns \<open>TCL_OK\<close> with the integer
  0 as result; \<open>GetImage\<close> without a photo returns \<open>TCL_ERROR\<close> with the message
  \<open>no image available\<close>.  In both cases the session, counters included, is unchanged,
  and so is the history of the environment: nothing is written to the photo.
\<close>

theorem GetImage_no_frame:
  "bufrdy v < 0 \<longrightarrow>
     (checkedTk i > 0 \<and> MainWindow t \<and> FindPhoto t name \<longrightarrow>
        GetImage t convert flgs (Some name) (i, v, e) = (TCL_OK, i, v, e\<lparr>result := IntObj 0\<rparr>)) \<and>
     GetImage t convert flgs None (i, v, e)
       = (TCL_ERROR, i, v, e\<lparr>result := StringObj ''no image available''\<rparr>)"
  by (simp add: GetImage_def CheckForTk_def TCL_OK_def TCL_ERROR_def)

theorem GetImage_no_frame_witness:
  "bufrdy session0 < 0 \<and> checkedTk interp0 > 0 \<and> MainWindow tk0 \<and> FindPhoto tk0 ''img'' \<and>
   GetImage tk0 convert_ok 0 (Some ''img'') (interp0, session0, env0)
     = (TCL_OK, interp0, session0, env0\<lparr>result := IntObj 0\<rparr>) \<and>
   GetImage tk0 convert_ok 0 None (interp0, session0, env0)
     = (TCL_ERROR, interp0, session0, env0\<lparr>result := StringObj ''no image available''\<rparr>) \<and>
   counters session0 = (0, 0)"
proof -
  have h: "bufrdy session0 < 0" "checkedTk interp0 > 0" "MainWindow tk0" "FindPhoto tk0 ''img''"
    by (simp_all add: interp0_def tk0_def)
  from GetImage_no_frame [of session0 interp0 tk0 "''img''" convert_ok 0 env0] h
  show ?thesis by simp
qed

subsection \<open>Negotiating the buffer pool\<close>

lemma count_ok_not: "(n \<le> 0 \<or> n > 16) = (\<not> count_ok n)" for n :: u32
  by (auto simp: count_ok_def word_gt_0)


lemma map_buffers_Inr:
  "map_buffers K M k i (v, e) = Some (Inr (v', e')) \<Longrightarrow> v' = v\<lparr>vbufs := vbufs v'\<rparr>"
proof (induction K M k i "(v, e)" arbitrary: v e rule: map_buffers.induct)
  case (1 K M i v e)
  then show ?case by simp
next
  case (2 K M k i v e)
  from "2.prems" show ?case
    by (auto simp: Let_def split: option.splits prod.splits if_splits dest!: "2.hyps")
qed





lemma session0_sel2 [simp]:
  "wantFormat session0 = 0" "isLoopDev session0 = 0" "width session0 = 640" "height session0 = 480"
  by (simp_all add: session0_def)











subsection \<open>Writing controls\<close>

lemma SetControls_append:
  "SetControls P K (ps @ qs) (v, e) =
     (case SetControls P K ps (v, e) of
        None \<Rightarrow> None
      | Some (r, v', e') \<Rightarrow> if r = TCL_OK then SetControls P K qs (v', e') else Some (r, v', e'))"
  by (induction ps arbitrary: v e)
     (auto simp: TCL_OK_def TCL_ERROR_def split: option.splits bool.splits)

lemma SetControl_frame_rate:
  assumes "nctrl v name = Some Ptr_frate"
    and "flags (qry (frate v)) AND V4L2_CTRL_FLAG_READ_ONLY = 0"
    and "flags (qry (frate v)) AND V4L2_CTRL_FLAG_INACTIVE = 0"
    and "GetIntFromObj P val = Some n"
  shows "SetControl P K (name, val) (v, e)
           = Some (True, v\<lparr>fps := (if 0 < n \<and> n < 200 then n else fps v)\<rparr>, e)"
  using assms by (simp add: SetControl_def vctrl_at_def Let_def)

text \<open>
  C4, amended.  A write of the value \<open>val\<close>, an integer \<open>n\<close>, to the control \<open>frame-rate\<close>
  (neither read-only nor inactive) stores \<open>n\<close> as the target rate of the session when
  \<open>0 < n < 200\<close>, and nothing otherwise: a value out of that interval is ignored, not clamped,
  and so is 200, the declared maximum of the control.  \<open>SetControls\<close> then returns \<open>TCL_OK\<close>;
  no ioctl is issued (the environment is the same) and no other field of the session changes.
  The rate is given to the device by the next \<open>StartCapture\<close>.
\<close>

theorem frame_rate_write:
  assumes "nctrl v ''frame-rate'' = Some Ptr_frate"
    and "flags (qry (frate v)) AND V4L2_CTRL_FLAG_READ_ONLY = 0"
    and "flags (qry (frate v)) AND V4L2_CTRL_FLAG_INACTIVE = 0"
    and "GetIntFromObj P val = Some n"
  shows "SetControls P K [(''frame-rate'', val)] (v, e)
           = Some (TCL_OK, v\<lparr>fps := (if 0 < n \<and> n < 200 then n else fps v)\<rparr>, e)"
  using SetControl_frame_rate [OF assms] by simp

lemma session0_ctl [simp]:
  "nctrl session0 ''frame-rate'' = Some Ptr_frate"
  "nctrl session0 ''frame-size'' = Some Ptr_fsize"
  "flags (qry (frate session0)) = 0" "flags (qry (fsize session0)) = 0"
  by (simp_all add: session0_def)

theorem frame_rate_write_witness:
  "GetIntFromObj parsers0 ''25'' = Some 25 \<and>
   SetControls parsers0 kernel_ok [(''frame-rate'', ''25'')] (session0, env0)
     = Some (TCL_OK, session0\<lparr>fps := 25\<rparr>, env0) \<and>
   GetIntFromObj parsers0 ''200'' = Some 200 \<and>
   SetControls parsers0 kernel_ok [(''frame-rate'', ''200'')] (session0, env0)
     = Some (TCL_OK, session0, env0)"
proof -
  have a: "GetIntFromObj parsers0 ''25'' = Some 25" "GetIntFromObj parsers0 ''200'' = Some 200"
    by (simp_all add: parsers0_def GetInt0_def)
  have s: "session0\<lparr>fps := 15\<rparr> = session0" by (simp add: session0_def)
  from frame_rate_write [of session0 parsers0 "''25''" 25 kernel_ok env0] a
  have b: "SetControls parsers0 kernel_ok [(''frame-rate'', ''25'')] (session0, env0)
     = Some (TCL_OK, session0\<lparr>fps := 25\<rparr>, env0)" by simp
  from frame_rate_write [of session0 parsers0 "''200''" 200 kernel_ok env0] a s
  have c: "SetControls parsers0 kernel_ok [(''frame-rate'', ''200'')] (session0, env0)
     = Some (TCL_OK, session0, env0)" by simp
  from a b c show ?thesis by blast
qed

lemma fast_format:
  "\<exists>fmt e. set_format False kernel_fast (session0, env0) = Some (Inr (fmt, e))"
  by (simp add: set_format_def DoIoctl_returns FormatsNormal_def the_format_def env0_def emit_def
     EINTR_def Let_def kernel_fast_def)

lemma fast_rate:
  "\<exists>e'. set_frame_rate kernel_fast (v, e) = Some (v\<lparr>fps := 1000\<rparr>, e')"
  by (simp add: set_frame_rate_def DoIoctl_returns the_parm_def emit_def V4L2_CAP_TIMEPERFRAME_def
     EINTR_def Let_def kernel_fast_def)

lemma fast_loop:
  "\<exists>e'. request_loop kernel_fast f 2 0 e = Some (True, 2, e')"
  by (simp add: request_loop.simps [of _ _ 2] DoIoctl_returns the_count_def
     emit_def EINTR_def Let_def kernel_fast_def)

lemma fast_map:
  "\<exists>v' e'. map_buffers kernel_fast mapper_ok k i (v, e) = Some (Inr (v', e'))"
  by (induction k arbitrary: i v e)
     (simp_all add: DoIoctl_returns kernel_fast_def mapper_ok_def MAP_FAILED_def EINTR_def Let_def)

lemma fast_queue:
  "\<exists>e'. queue_buffers kernel_fast f k i e = Some (True, e')"
  by (induction k arbitrary: i e)
     (simp_all add: DoIoctl_returns kernel_fast_def EINTR_def)

lemma fast_streamon:
  "\<exists>e'. DoIoctl kernel_fast e f VIDIOC_STREAMON = Some (0, VIDIOC_STREAMON, e')"
  by (simp add: DoIoctl_returns kernel_fast_def EINTR_def)

lemma fast_start:
  "\<exists>v' e'. StartCapture False kernel_fast mapper_ok (session0, env0) = Some (TCL_OK, v', e') \<and>
      fps v' = 1000 \<and> nctrl v' = nctrl session0 \<and> frate v' = frate session0"
proof -
  from fast_format obtain fmt e1 where
    sf: "set_format False kernel_fast (session0, env0) = Some (Inr (fmt, e1))" by blast
  let ?v1 = "session0\<lparr>format := pixelformat fmt,
      wantFormat := (if wantFormat session0 = 0 then pixelformat fmt else wantFormat session0)\<rparr>"
  let ?v2 = "?v1\<lparr>fps := 1000\<rparr>"
  from fast_rate [of ?v1 e1] obtain e2 where
    fr: "set_frame_rate kernel_fast (?v1, e1) = Some (?v2, e2)" by blast
  from fast_loop [of "fd ?v2" e2] obtain e3 where
    rl: "request_loop kernel_fast (fd ?v2) 2 0 e2 = Some (True, 2, e3)" by blast
  obtain v3 e4 where mb: "map_buffers kernel_fast mapper_ok 2 0 (?v2, e3) = Some (Inr (v3, e4))"
    using fast_map by blast
  from map_buffers_Inr [OF mb] have v3: "v3 = ?v2\<lparr>vbufs := vbufs v3\<rparr>" .
  obtain e5 where qb: "queue_buffers kernel_fast (fd v3) 2 0 e4 = Some (True, e5)"
    using fast_queue by blast
  obtain e6 where so: "DoIoctl kernel_fast e5 (fd (v3\<lparr>nvbufs := 2\<rparr>)) VIDIOC_STREAMON = Some (0, VIDIOC_STREAMON, e6)"
    using fast_streamon by blast
  have f: "fps v3 = 1000" "nctrl v3 = nctrl session0" "frate v3 = frate session0"
    by (subst v3, simp)+
  have "\<exists>v' e'. StartCapture False kernel_fast mapper_ok (session0, env0) = Some (TCL_OK, v', e') \<and>
      fps v' = fps v3 \<and> nctrl v' = nctrl v3 \<and> frate v' = frate v3"
    unfolding StartCapture_def using sf fr rl mb qb so
    by (simp add: StartCapture_buffers_def Let_def)
  with f show ?thesis by simp
qed

text \<open>
  C4, as the claim states it, fails.  The write of 500 to a session with the rate 15 leaves
  15, where clamping would store the nearest value of the interval.  And the stored rate
  need not lie in 1 to 200 after a write: \<open>StartCapture\<close> stores the rate the device reports,
  here 1000, and the write of 500 that follows leaves it there.
\<close>

theorem frame_rate_write_counterexample:
  "SetControls parsers0 kernel_ok [(''frame-rate'', ''500'')] (session0, env0)
     = Some (TCL_OK, session0, env0) \<and> fps session0 = 15 \<and>
   StartCapture False kernel_fast mapper_ok (session0, env0) \<noteq> None \<and>
   fst (the (StartCapture False kernel_fast mapper_ok (session0, env0))) = TCL_OK \<and>
   SetControls parsers0 kernel_fast [(''frame-rate'', ''500'')]
       (snd (the (StartCapture False kernel_fast mapper_ok (session0, env0))))
     = Some (TCL_OK, snd (the (StartCapture False kernel_fast mapper_ok (session0, env0)))) \<and>
   fps (fst (snd (the (StartCapture False kernel_fast mapper_ok (session0, env0))))) = 1000"
proof -
  from fast_start obtain v' e' where
    s: "StartCapture False kernel_fast mapper_ok (session0, env0) = Some (TCL_OK, v', e')"
    and f: "fps v' = 1000" "nctrl v' = nctrl session0" "frate v' = frate session0" by blast
  have p: "GetIntFromObj parsers0 ''500'' = Some 500" by (simp add: parsers0_def GetInt0_def)
  have "SetControl parsers0 kernel_fast (''frame-rate'', ''500'') (v', e') = Some (True, v', e')"
    using SetControl_frame_rate [of v' "''frame-rate''" parsers0 "''500''" 500 kernel_fast e'] f p
    by simp
  then have a: "SetControls parsers0 kernel_fast [(''frame-rate'', ''500'')] (v', e') = Some (TCL_OK, v', e')"
    by simp
  have "SetControl parsers0 kernel_ok (''frame-rate'', ''500'') (session0, env0) = Some (True, session0, env0)"
    using SetControl_frame_rate [of session0 "''frame-rate''" parsers0 "''500''" 500 kernel_ok env0] p
    by simp
  then have b: "SetControls parsers0 kernel_ok [(''frame-rate'', ''500'')] (session0, env0)
     = Some (TCL_OK, session0, env0)" by simp
  from s f a b show ?thesis by simp
qed

lemma find_menu_None:
  "s \<notin> set (map f ks) \<Longrightarrow> List.find (\<lambda>k. f k \<noteq> [] \<and> f k = s) ks = None"
  by (induction ks) auto

lemma SetControl_skippable:
  assumes "skippable P v name val"
  shows "SetControl P K (name, val) (v, e) = Some (True, v, e)"
proof (cases "nctrl v name")
  case None
  then show ?thesis by (simp add: SetControl_def)
next
  case (Some p)
  show ?thesis
  proof (cases "flags (qry (vctrl_at v p)) AND V4L2_CTRL_FLAG_READ_ONLY \<noteq> 0 \<or>
          flags (qry (vctrl_at v p)) AND V4L2_CTRL_FLAG_INACTIVE \<noteq> 0")
    case True
    with Some show ?thesis by (auto simp add: SetControl_def Let_def)
  next
    case False
    show ?thesis
    proof (cases p)
      case Ptr_fsize
      with assms Some False show ?thesis
        by (auto simp: skippable_def Let_def is_heap_def)
    next
      case Ptr_frate
      with assms Some False show ?thesis
        by (auto simp: skippable_def SetControl_def Let_def is_heap_def)
    next
      case (Ptr_heap a)
      with assms Some False show ?thesis
        by (cases "qtype (qry (heap v a))")
           (auto simp: skippable_def SetControl_def Let_def is_heap_def vctrl_at_def
              menu_choices_def find_menu_None)
    qed
  qed
qed

text \<open>
  C5, amended.  The pairs are applied in the order given: when \<open>SetControls\<close> has applied the
  pairs \<open>ps\<close> without an error and reached the state \<open>(v1, e1)\<close>, it goes on with the pairs
  that follow from that state.  A pair that is \<open>skippable\<close> there (unknown name; read-only or
  inactive control; no integer, or no wide integer, for a control that takes one; for a menu
  control of the device, a value that is none of its choices) changes neither the session nor
  the environment, raises no error, and the call goes on with the next pair, all that \<open>ps\<close>
  did being kept.  The menu \<open>frame-size\<close> is no such control: it is not compared with its
  choices.
\<close>

theorem SetControls_skips:
  assumes "SetControls P K ps (v, e) = Some (TCL_OK, v1, e1)"
  shows "SetControls P K (ps @ qs) (v, e) = SetControls P K qs (v1, e1) \<and>
         (skippable P v1 name val \<longrightarrow>
            SetControl P K (name, val) (v1, e1) = Some (True, v1, e1) \<and>
            SetControls P K (ps @ (name, val) # qs) (v, e) = SetControls P K qs (v1, e1))"
  using assms by (simp add: SetControls_append SetControl_skippable)

lemma brightness_25:
  "SetControls parsers0 kernel_ok [(''brightness'', ''25'')] (session_ctl, env0)
     = Some (TCL_OK, session_ctl,
         \<lparr>trace = [Ioctl 3 (VIDIOC_S_EXT_CTRLS \<lparr>ctrl_class = 0x00980000, xid = 0x00980900, xvalue = 25\<rparr>)],
          errno = 0, result = EmptyObj\<rparr>)"
  by (simp add: SetControl_def write_control_def session_ctl_def vctrl_at_def ctl_brightness_def Let_def
      V4L2_CTRL_FLAG_READ_ONLY_def V4L2_CTRL_FLAG_INACTIVE_def V4L2_CTRL_ID2CLASS_def
      parsers0_def GetInt0_def DoIoctl_returns kernel_ok_def EINTR_def emit_def env0_def TCL_OK_def)

lemma skippable_samples:
  "skippable parsers0 session_ctl ''nosuch'' ''25''"
  "skippable parsers0 session_ctl ''gain'' ''25''"
  "skippable parsers0 session_ctl ''brightness'' ''abc''"
  "skippable parsers0 session_ctl ''power-line-frequency'' ''70-hz''"
  by code_simp+

lemma menu_choices_samples: "menu_choices ctl_powerline = [''disabled'', ''50-hz'', ''60-hz'']"
  "menu_choices (fsize session0) = [''640x480'']"
  by code_simp+

text \<open>
  C5, as the claim states it, fails for the menu control \<open>frame-size\<close>: its value is parsed as
  a size and never compared with the choices of the control.  On a stopped session whose
  only choice is \<open>640x480\<close>, the value \<open>123x45\<close> is applied: width and height become 123 and 45.
\<close>

theorem frame_size_menu_counterexample:
  "nctrl session0 ''frame-size'' = Some Ptr_fsize \<and>
   qtype (qry (fsize session0)) = V4L2_CTRL_TYPE_MENU \<and>
   menu_choices (fsize session0) = [''640x480''] \<and>
   width session0 = 640 \<and> height session0 = 480 \<and>
   SetControls parsers0 kernel_ok [(''frame-size'', ''123x45'')] (session0, env0)
     = Some (TCL_OK, session0\<lparr>width := 123, height := 45, wantFormat := 0\<rparr>, env0)"
proof -
  have "size_fourcc ''123x45'' = 0" by code_simp
  then have "SetControls parsers0 kernel_ok [(''frame-size'', ''123x45'')] (session0, env0)
     = Some (TCL_OK, session0\<lparr>width := 123, height := 45, wantFormat := 0\<rparr>, env0)"
    by (simp add: SetControl_def vctrl_at_def Let_def parsers0_def scan0_def
      V4L2_CTRL_FLAG_READ_ONLY_def V4L2_CTRL_FLAG_INACTIVE_def)
  moreover have "qtype (qry (fsize session0)) = V4L2_CTRL_TYPE_MENU" by (simp add: session0_def)
  ultimately show ?thesis using menu_choices_samples(2) by simp
qed

lemma frame_rate_25:
  "SetControls parsers0 kernel_ok [(''frame-rate'', ''25'')] (session_ctl, e)
     = Some (TCL_OK, session_ctl\<lparr>fps := 25\<rparr>, e)"
  using SetControl_frame_rate [of session_ctl "''frame-rate''" parsers0 "''25''" 25 kernel_ok e]
  by (simp add: session_ctl_def session0_def parsers0_def GetInt0_def)

theorem SetControls_skips_witness:
  "SetControls parsers0 kernel_ok [(''brightness'', ''25'')] (session_ctl, env0)
     = Some (TCL_OK, session_ctl,
         \<lparr>trace = [Ioctl 3 (VIDIOC_S_EXT_CTRLS \<lparr>ctrl_class = 0x00980000, xid = 0x00980900, xvalue = 25\<rparr>)],
          errno = 0, result = EmptyObj\<rparr>) \<and>
   skippable parsers0 session_ctl ''nosuch'' ''25'' \<and>
   skippable parsers0 session_ctl ''gain'' ''25'' \<and>
   skippable parsers0 session_ctl ''brightness'' ''abc'' \<and>
   skippable parsers0 session_ctl ''power-line-frequency'' ''70-hz'' \<and>
   SetControls parsers0 kernel_ok
       [(''brightness'', ''25''), (''nosuch'', ''25''), (''frame-rate'', ''25'')] (session_ctl, env0)
     = Some (TCL_OK, session_ctl\<lparr>fps := 25\<rparr>,
         \<lparr>trace = [Ioctl 3 (VIDIOC_S_EXT_CTRLS \<lparr>ctrl_class = 0x00980000, xid = 0x00980900, xvalue = 25\<rparr>)],
          errno = 0, result = EmptyObj\<rparr>) \<and>
   SetControls parsers0 kernel_ok
       [(''brightness'', ''25''), (''gain'', ''25''), (''frame-rate'', ''25'')] (session_ctl, env0)
     = Some (TCL_OK, session_ctl\<lparr>fps := 25\<rparr>,
         \<lparr>trace = [Ioctl 3 (VIDIOC_S_EXT_CTRLS \<lparr>ctrl_class = 0x00980000, xid = 0x00980900, xvalue = 25\<rparr>)],
          errno = 0, result = EmptyObj\<rparr>) \<and>
   SetControls parsers0 kernel_ok
       [(''brightness'', ''25''), (''brightness'', ''abc''), (''frame-rate'', ''25'')] (session_ctl, env0)
     = Some (TCL_OK, session_ctl\<lparr>fps := 25\<rparr>,
         \<lparr>trace = [Ioctl 3 (VIDIOC_S_EXT_CTRLS \<lparr>ctrl_class = 0x00980000, xid = 0x00980900, xvalue = 25\<rparr>)],
          errno = 0, result = EmptyObj\<rparr>) \<and>
   SetControls parsers0 kernel_ok
       [(''brightness'', ''25''), (''power-line-frequency'', ''70-hz''), (''frame-rate'', ''25'')]
       (session_ctl, env0)
     = Some (TCL_OK, session_ctl\<lparr>fps := 25\<rparr>,
         \<lparr>trace = [Ioctl 3 (VIDIOC_S_EXT_CTRLS \<lparr>ctrl_class = 0x00980000, xid = 0x00980900, xvalue = 25\<rparr>)],
          errno = 0, result = EmptyObj\<rparr>)"
proof -
  let ?e = "\<lparr>trace = [Ioctl 3 (VIDIOC_S_EXT_CTRLS \<lparr>ctrl_class = 0x00980000, xid = 0x00980900, xvalue = 25\<rparr>)],
          errno = 0, result = EmptyObj\<rparr>"
  note t = SetControls_skips [OF brightness_25, of "[(''frame-rate'', ''25'')]", THEN conjunct2,
      rule_format, THEN conjunct2]
  have a: "SetControls parsers0 kernel_ok
       [(''brightness'', ''25''), (''nosuch'', ''25''), (''frame-rate'', ''25'')] (session_ctl, env0)
     = Some (TCL_OK, session_ctl\<lparr>fps := 25\<rparr>, ?e)"
    using t [OF skippable_samples(1)] frame_rate_25 [of ?e] by (simp only: append.simps)
  have b: "SetControls parsers0 kernel_ok
       [(''brightness'', ''25''), (''gain'', ''25''), (''frame-rate'', ''25'')] (session_ctl, env0)
     = Some (TCL_OK, session_ctl\<lparr>fps := 25\<rparr>, ?e)"
    using t [OF skippable_samples(2)] frame_rate_25 [of ?e] by (simp only: append.simps)
  have c: "SetControls parsers0 kernel_ok
       [(''brightness'', ''25''), (''brightness'', ''abc''), (''frame-rate'', ''25'')] (session_ctl, env0)
     = Some (TCL_OK, session_ctl\<lparr>fps := 25\<rparr>, ?e)"
    using t [OF skippable_samples(3)] frame_rate_25 [of ?e] by (simp only: append.simps)
  have d: "SetControls parsers0 kernel_ok
       [(''brightness'', ''25''), (''power-line-frequency'', ''70-hz''), (''frame-rate'', ''25'')]
       (session_ctl, env0)
     = Some (TCL_OK, session_ctl\<lparr>fps := 25\<rparr>, ?e)"
    using t [OF skippable_samples(4)] frame_rate_25 [of ?e] by (simp only: append.simps)
  from a b c d brightness_25 skippable_samples show ?thesis by blast
qed

subsection \<open>The two counters\<close>

lemma sint_succ64: "sint (x :: 64 word) < 2 ^ 63 - 1 \<Longrightarrow> sint (x + 1) = sint x + 1"
proof -
  assume a: "sint x < 2 ^ 63 - 1"
  have "- (2 ^ 63) \<le> sint x" using sint_ge [of x] by simp
  with a show ?thesis
    by (simp add: sint_word_add signed_take_bit_int_eq_self)
qed

lemma keeps_refl [simp]: "keeps v v"
  by (simp add: keeps_def)

lemma keeps_trans: "keeps a b \<Longrightarrow> keeps b c \<Longrightarrow> keeps a c"
  by (auto simp: keeps_def)

lemma counted_keeps: "counted n v \<Longrightarrow> keeps v v' \<Longrightarrow> counted n v'"
  by (auto simp: counted_def keeps_def)

lemma counted_mono: "counted n v \<Longrightarrow> n \<le> m \<Longrightarrow> counted m v"
  by (auto simp: counted_def)

lemma StopCapture_keeps: "StopCapture K (v, e) = Some (r, v', e') \<Longrightarrow> keeps v v'"
  by (auto simp: keeps_def dest!: StopCapture_Some split: if_splits)

lemma captureError_keeps: "captureError K (v, e) = Some (v', e') \<Longrightarrow> keeps v v'"
  by (auto simp: keeps_def dest!: captureError_Some split: if_splits)

lemma orientation_keeps: "CMD_orientation G args (v, e) = (r, v', e') \<Longrightarrow> keeps v v'"
  by (auto simp: CMD_orientation_def keeps_def Let_def split: if_splits list.splits option.splits)

lemma write_control_keeps: "write_control K name p xc (v, e) = Some (b, v', e') \<Longrightarrow> keeps v v'"
  by (cases p)
     (auto simp: write_control_def errorSet_def keeps_def Let_def set_useOld_def
        split: if_splits Option.bind_splits prod.splits)

lemma SetControl_keeps:
  assumes "SetControl P K (name, val) (v, e) = Some (b, v', e')"
  shows "keeps v v'"
proof (cases "nctrl v name")
  case None
  with assms show ?thesis by (simp add: SetControl_def)
next
  case (Some p)
  show ?thesis
  proof (cases "flags (qry (vctrl_at v p)) AND V4L2_CTRL_FLAG_READ_ONLY \<noteq> 0 \<or>
          flags (qry (vctrl_at v p)) AND V4L2_CTRL_FLAG_INACTIVE \<noteq> 0")
    case True
    with Some assms show ?thesis by (auto simp add: SetControl_def Let_def)
  next
    case False
    show ?thesis
    proof (cases p)
      case Ptr_fsize
      with assms Some False show ?thesis
        by (auto simp: SetControl_def Let_def keeps_def split: option.splits if_splits)
    next
      case Ptr_frate
      with assms Some False show ?thesis
        by (auto simp: SetControl_def Let_def keeps_def split: option.splits if_splits)
    next
      case (Ptr_heap a)
      with assms Some False show ?thesis
        by (cases "qtype (qry (heap v a))")
           (auto simp: SetControl_def Let_def vctrl_at_def split: option.splits
              dest: write_control_keeps)
    qed
  qed
qed

lemma SetControls_keeps: "SetControls P K ps (v, e) = Some (r, v', e') \<Longrightarrow> keeps v v'"
proof (induction ps arbitrary: v e)
  case Nil
  then show ?case by simp
next
  case (Cons p ps)
  obtain name val where p: "p = (name, val)" by (cases p)
  from Cons.prems obtain b v1 e1 where s: "SetControl P K p (v, e) = Some (b, v1, e1)"
    by (auto split: option.splits)
  with p have k: "keeps v v1" by (auto dest: SetControl_keeps)
  show ?case
  proof (cases b)
    case True
    with s Cons.prems have "SetControls P K ps (v1, e1) = Some (r, v', e')" by simp
    from Cons.IH [OF this] k show ?thesis by (rule keeps_trans [rotated])
  next
    case False
    with s Cons.prems have "v' = v1" by simp
    with k show ?thesis by simp
  qed
qed

lemma GetImage_counted:
  assumes "counted n v" and "GetImage t c f a (i, v, e) = (r, i', v', e')"
  shows "counted n v'"
proof (cases "v' = v")
  case True
  with assms show ?thesis by simp
next
  case False
  with assms(2) have d: "bufrdy v \<ge> 0" "bufdone v = 0"
    "v' = v\<lparr>bufdone := 1, counters := (fst (counters v), snd (counters v) + 1)\<rparr>"
    by (auto simp: GetImage_def Let_def split: if_splits prod.splits option.splits)
  from assms(1) d have lt: "sint (snd (counters v)) < sint (fst (counters v))"
    by (simp add: counted_def)
  have "sint (fst (counters v)) \<le> 2 ^ 63 - 1" using sint_lt [of "fst (counters v)"] by simp
  with lt have "sint (snd (counters v) + 1) = sint (snd (counters v)) + 1"
    by (intro sint_succ64) simp
  with assms(1) lt d show ?thesis by (simp add: counted_def)
qed

lemma counted_reset: "counted n v \<Longrightarrow> counters v' = (0, 0) \<Longrightarrow> bufrdy v' = -1 \<Longrightarrow> counted n v'"
  by (auto simp: counted_def)

lemma set_format_Inl_keeps: "set_format m K (v, e) = Some (Inl (r, v', e')) \<Longrightarrow> keeps v v'"
  by (auto simp: set_format_def Let_def keeps_def split: if_splits Option.bind_splits prod.splits)

lemma set_frame_rate_keeps: "set_frame_rate K (v, e) = Some (v', e') \<Longrightarrow> keeps v v'"
  by (auto simp: set_frame_rate_def Let_def keeps_def split: if_splits Option.bind_splits prod.splits)

lemma map_buffers_Inl_keeps:
  "map_buffers K M k i (v, e) = Some (Inl (code, v', e')) \<Longrightarrow> keeps v v'"
proof (induction K M k i "(v, e)" arbitrary: v e rule: map_buffers.induct)
  case (1 K M i v e)
  then show ?case by simp
next
  case (2 K M k i v e)
  from "2.prems" show ?case
    by (auto simp: Let_def keeps_def split: option.splits prod.splits if_splits dest!: "2.hyps")
qed

lemma map_buffers_Inr_keeps:
  "map_buffers K M k i (v, e) = Some (Inr (v', e')) \<Longrightarrow> keeps v v'"
  by (drule map_buffers_Inr, erule ssubst) (simp add: keeps_def)

lemma StartCapture_buffers_keeps:
  assumes "StartCapture_buffers K M fmt (v, e) = Some (r, v', e')"
  shows "keeps v v' \<or> counters v' = (0, 0) \<and> bufrdy v' = -1"
  using assms
  by (auto simp: StartCapture_buffers_def Let_def keeps_def
        split: Option.bind_splits sum.splits prod.splits if_splits
        dest!: map_buffers_Inl_keeps map_buffers_Inr_keeps)

lemma StartCapture_keeps:
  assumes "StartCapture m K M (v, e) = Some (r, v', e')"
  shows "keeps v v' \<or> counters v' = (0, 0) \<and> bufrdy v' = -1"
proof (cases "running v > 0")
  case True
  with assms show ?thesis by (simp add: StartCapture_def)
next
  case False
  with assms obtain sf where sf: "set_format m K (v, e) = Some sf"
    by (auto simp: StartCapture_def split: Option.bind_splits)
  show ?thesis
  proof (cases sf)
    case (Inl x)
    with sf assms False have "x = (r, v', e')" by (simp add: StartCapture_def)
    with sf Inl show ?thesis by (auto dest: set_format_Inl_keeps)
  next
    case (Inr y)
    obtain fmt e1 where y: "y = (fmt, e1)" by (cases y)
    let ?v1 = "v\<lparr>format := pixelformat fmt,
                 wantFormat := (if wantFormat v = 0 then pixelformat fmt else wantFormat v)\<rparr>"
    from sf Inr y assms False obtain v2 e2 where
      fr: "set_frame_rate K (?v1, e1) = Some (v2, e2)"
      and sb: "StartCapture_buffers K M fmt (v2, e2) = Some (r, v', e')"
      by (auto simp: StartCapture_def Let_def split: Option.bind_splits)
    have "keeps v ?v1" by (simp add: keeps_def)
    with set_frame_rate_keeps [OF fr] have "keeps v v2" by (rule keeps_trans [rotated])
    with StartCapture_buffers_keeps [OF sb] show ?thesis by (auto simp: keeps_def)
  qed
qed

lemma StartCapture_counted:
  "StartCapture m K M (v, e) = Some (r, v', e') \<Longrightarrow> counted n v \<Longrightarrow> counted n v'"
  by (auto dest!: StartCapture_keeps intro: counted_keeps counted_reset)

lemma doCallback_counted:
  assumes H: "\<And>s w x rc w' x'. counted k w \<Longrightarrow> Eval s (w, x) = Some (rc, w', x') \<Longrightarrow> counted m w'"
    and c: "counted k v" and d: "doCallback K Eval (v, e) = Some (v', e')"
  shows "counted m v'"
proof -
  from d obtain ret v1 e1 where
    ev: "Eval (cbCmd v) (v, emit (EvalEx (cbCmd v)) e) = Some (ret, v1, e1)"
    by (auto simp: doCallback_def split: Option.bind_splits)
  from H [OF c ev] have c1: "counted m v1" .
  show ?thesis
  proof (cases "ret = TCL_OK")
    case True
    with ev d c1 show ?thesis by (simp add: doCallback_def)
  next
    case False
    with ev d obtain r where "StopCapture K (v1, emit (BackgroundException ret) e1) = Some (r, v', e')"
      by (auto simp: doCallback_def split: Option.bind_splits)
    from StopCapture_keeps [OF this] c1 show ?thesis by (rule counted_keeps [rotated])
  qed
qed

lemma counted_captured:
  assumes "counted n v" and "n < 2 ^ 63 - 1"
  shows "counted (n + 1) (v\<lparr>stalled := 0, bufdone := 0,
            counters := (fst (counters v) + 1, snd (counters v))\<rparr>\<lparr>bufrdy := b\<rparr>)"
proof -
  from assms have "sint (fst (counters v)) < 2 ^ 63 - 1" by (simp add: counted_def)
  then have "sint (fst (counters v) + 1) = sint (fst (counters v)) + 1" by (rule sint_succ64)
  with assms show ?thesis by (simp add: counted_def)
qed

lemma BufferReady_counted:
  assumes H: "\<And>s w x rc w' x'. counted (n + 1) w \<Longrightarrow> Eval s (w, x) = Some (rc, w', x') \<Longrightarrow> counted m w'"
    and c: "counted n v" and n: "n < 2 ^ 63 - 1" and m: "n + 1 \<le> m"
    and b: "BufferReady K Eval rmask (v, e) = Some (v', e')"
  shows "counted m v'"
proof (cases "rmask AND TCL_READABLE = 0")
  case True
  with b have "v' = v" by (simp add: BufferReady_def)
  with c m show ?thesis by (auto intro: counted_mono)
next
  case False
  have cb: "counted m v'" if "counted (n + 1) w" and "doCallback K Eval (w, x) = Some (v', e')" for w x
  proof (rule doCallback_counted [where k = "n + 1" and Eval = Eval])
    show "counted m w'" if "counted (n + 1) w0" and "Eval s (w0, x0) = Some (rc, w', x')"
      for s w0 x0 rc w' x'
      using that by (rule H)
    show "counted (n + 1) w" by fact
    show "doCallback K Eval (w, x) = Some (v', e')" by fact
  qed
  have err: "counted m v'" if "counted (n + 1) w" and "(captureError K (w, x) \<bind> doCallback K Eval) = Some (v', e')"
    for w x
  proof -
    from that(2) obtain w1 x1 where ce: "captureError K (w, x) = Some (w1, x1)"
      and dc: "doCallback K Eval (w1, x1) = Some (v', e')"
      by (auto split: Option.bind_splits)
    from captureError_keeps [OF ce] that(1) have "counted (n + 1) w1" by (rule counted_keeps [rotated])
    from cb [OF this dc] show ?thesis .
  qed
  from c have c1: "counted (n + 1) v" by (rule counted_mono) simp
  from b False obtain ret c0 e1 where
    dq: "DoIoctl K e (fd v) (VIDIOC_DQBUF vbuf_zero) = Some (ret, c0, e1)"
    by (auto simp: BufferReady_def split: Option.bind_splits)
  show ?thesis
  proof (cases "ret < 0")
    case True
    show ?thesis
    proof (cases "(errno e1 = EAGAIN \<or> errno e1 = EWOULDBLOCK) \<and> stalled v = 0")
      case True
      with b False dq \<open>ret < 0\<close> have "v' = v\<lparr>stalled := 1\<rparr>" by (auto simp: BufferReady_def)
      with c1 have "counted (n + 1) v'" by (simp add: counted_def)
      then show ?thesis using m by (rule counted_mono)
    next
      case F: False
      with b False dq \<open>ret < 0\<close> have "(captureError K (v, e1) \<bind> doCallback K Eval) = Some (v', e')"
        by (auto simp: BufferReady_def split: if_splits)
      from err [OF c1 this] show ?thesis .
    qed
  next
    case ok: False
    let ?v1 = "v\<lparr>stalled := 0, bufdone := 0, counters := (fst (counters v) + 1, snd (counters v))\<rparr>"
    have k: "counted (n + 1) (?v1\<lparr>bufrdy := i\<rparr>)" for i
      using counted_captured [OF c n] .
    have k2: "counted (n + 1) (?v1\<lparr>bufrdy := i, cbCmd := s\<rparr>)" for i s
      using k [of i] by (simp add: counted_def)
    have k3: "counted (n + 1) (?v1\<lparr>bufrdy := i\<rparr>\<lparr>cbCmd := s\<rparr>)" for i s
      using k [of i] by (simp add: counted_def)
    show ?thesis
    proof (cases "bufrdy v \<ge> 0")
      case True
      let ?v2 = "?v1\<lparr>bufrdy := sint (index (the_buffer c0 vbuf_zero))\<rparr>"
      let ?q = "VIDIOC_QBUF (the_buffer c0 vbuf_zero\<lparr>index := word_of_int (bufrdy v)\<rparr>)"
      from b False dq ok True obtain ret2 c2 e2 where
        q: "DoIoctl K e1 (fd v) ?q = Some (ret2, c2, e2)"
        by (auto simp: BufferReady_def Let_def split: Option.bind_splits)
      show ?thesis
      proof (cases "ret2 < 0")
        case True
        with b False dq ok \<open>bufrdy v \<ge> 0\<close> q
        have "(captureError K (?v2, e2) \<bind> doCallback K Eval) = Some (v', e')"
          by (simp add: BufferReady_def Let_def)
        from err [OF k this] show ?thesis .
      next
        case False
        with b \<open>rmask AND TCL_READABLE \<noteq> 0\<close> dq ok \<open>bufrdy v \<ge> 0\<close> q
        have "\<exists>s. doCallback K Eval (?v2\<lparr>cbCmd := s\<rparr>, e2) = Some (v', e')"
          by (auto simp: BufferReady_def Let_def)
        then obtain s where "doCallback K Eval (?v2\<lparr>cbCmd := s\<rparr>, e2) = Some (v', e')" by blast
        from cb [OF k3 this] show ?thesis .
      qed
    next
      case nb: False
      with b False dq ok have
        "\<exists>s. doCallback K Eval (?v1\<lparr>bufrdy := sint (index (the_buffer c0 vbuf_zero)),
            cbCmd := s\<rparr>, e1) = Some (v', e')"
        by (auto simp: BufferReady_def Let_def)
      then obtain s where "doCallback K Eval (?v1\<lparr>bufrdy := sint (index (the_buffer c0 vbuf_zero)),
            cbCmd := s\<rparr>, e1) = Some (v', e')" by blast
      from cb [OF k2 this] show ?thesis .
    qed
  qed
qed

lemma step_run_counted:
  "(\<forall>n s'. counted n (fst s) \<longrightarrow> n + int (frames x) < 2 ^ 63 \<longrightarrow> step W x s = Some s'
       \<longrightarrow> counted (n + int (frames x)) (fst s'))"
  "(\<forall>n s'. counted n (fst s) \<longrightarrow> n + int (sum_list (map frames xs)) < 2 ^ 63 \<longrightarrow> run W xs s = Some s'
       \<longrightarrow> counted (n + int (sum_list (map frames xs))) (fst s'))"
proof (induction W x s and W xs s rule: step_run.induct)
  case (1 W s)
  show ?case by (cases s) (auto dest: StartCapture_counted)
next
  case (2 W s)
  show ?case by (cases s) (auto dest!: StopCapture_keeps intro: counted_keeps)
next
  case (3 W i flgs arg s)
  show ?case
  proof (cases s)
    case (Pair v e)
    obtain r i' v' e' where "GetImage (w_tk W) (w_convert W) flgs arg (i, v, e) = (r, i', v', e')"
      by (cases "GetImage (w_tk W) (w_convert W) flgs arg (i, v, e)") auto
    with Pair show ?thesis by (auto dest: GetImage_counted [rotated])
  qed
next
  case (4 W ps s)
  show ?case by (cases s) (auto dest!: SetControls_keeps intro: counted_keeps)
next
  case (5 W args s)
  show ?case
  proof (cases s)
    case (Pair v e)
    obtain r v' e' where "CMD_orientation (GetIntFromObj (w_parsers W)) args (v, e) = (r, v', e')"
      by (cases "CMD_orientation (GetIntFromObj (w_parsers W)) args (v, e)") auto
    with Pair show ?thesis by (auto dest!: orientation_keeps intro: counted_keeps)
  qed
next
  case (6 W rmask cb rc s)
  show ?case
  proof (intro allI impI)
    fix n s'
    assume c: "counted n (fst s)" and f: "n + int (frames (Op_BufferReady rmask cb rc)) < 2 ^ 63"
      and st: "step W (Op_BufferReady rmask cb rc) s = Some s'"
    obtain v e where s: "s = (v, e)" by (cases s)
    obtain v' e' where s': "s' = (v', e')" by (cases s')
    let ?m = "n + 1 + int (sum_list (map frames cb))"
    let ?Eval = "\<lambda>script s'. map_option (Pair rc) (run W cb s')"
    have H: "counted ?m w'" if "counted (n + 1) w" and "?Eval sc (w, x) = Some (r, w', x')" for sc w x r w' x'
    proof -
      have ih: "counted (k + int (sum_list (map frames cb))) (fst t')"
        if "counted k (fst t)" and "k + int (sum_list (map frames cb)) < 2 ^ 63"
          and "run W cb t = Some t'" for t k t'
        using "6.IH" that by blast
      from that(2) have "run W cb (w, x) = Some (w', x')" by auto
      with ih [of "n + 1" "(w, x)" "(w', x')"] that(1) f show ?thesis by simp
    qed
    from st s s' have b: "BufferReady (w_kernel W) ?Eval rmask (v, e) = Some (v', e')" by simp
    from c s have cv: "counted n v" by simp
    from f have "n < 2 ^ 63 - 1" by simp
    have "counted ?m v'"
    proof (rule BufferReady_counted [where n = n and Eval = ?Eval])
      show "counted ?m w'" if "counted (n + 1) w0" and "?Eval sc (w0, x0) = Some (r, w', x')"
        for sc w0 x0 r w' x'
        using that by (rule H)
      show "counted n v" by fact
      show "n < 2 ^ 63 - 1" by fact
      show "n + 1 \<le> ?m" by simp
      show "BufferReady (w_kernel W) ?Eval rmask (v, e) = Some (v', e')" by fact
    qed
    with s' show "counted (n + int (frames (Op_BufferReady rmask cb rc))) (fst s')"
      by (simp add: algebra_simps)
  qed
next
  case (7 W s)
  show ?case by simp
next
  case (8 W x xs s)
  show ?case
  proof (intro allI impI)
    fix n s'
    assume c: "counted n (fst s)" and f: "n + int (sum_list (map frames (x # xs))) < 2 ^ 63"
      and r: "run W (x # xs) s = Some s'"
    from r obtain s1 where s1: "step W x s = Some s1" and r1: "run W xs s1 = Some s'"
      by (auto split: option.splits)
    from "8.IH"(1) c f s1 have "counted (n + int (frames x)) (fst s1)" by simp
    with "8.IH"(2) [OF s1] f r1
    have "counted (n + int (frames x) + int (sum_list (map frames xs))) (fst s')" by simp
    then show "counted (n + int (sum_list (map frames (x # xs)))) (fst s')"
      by (simp add: add.assoc)
  qed
qed

lemma GetImage_twice:
  "counters (fst (snd (snd (GetImage t c f a (i, v, e))))) = counters v \<or>
   counters (fst (snd (snd (GetImage t' c' f' a' (i', fst (snd (snd (GetImage t c f a (i, v, e)))), e1)))))
     = counters (fst (snd (snd (GetImage t c f a (i, v, e)))))"
  by (auto simp: GetImage_def Let_def split: if_splits prod.splits option.splits)

lemma ops0_run:
  "map_option (\<lambda>(v, e). (counters v, bufrdy v, bufdone v)) (run world0 ops0 (session0, env0))
     = Some ((2, 2), -1, 0)"
  by code_simp

text \<open>
  C9.  Take a session as \<open>v4l2 open\<close> leaves it (both counters 0, no ready frame) and any
  sequence of operations that returns, with fewer than \<open>2^63\<close> wake-ups, so that the 64-bit
  counter of captured frames does not wrap.  Then the counter of frames read is not above
  the counter of frames captured; both are non-negative and the second is at most the
  number of wake-ups; and while a ready frame has not been read, the first counter is
  below the second.  Of two calls of \<open>GetImage\<close> that follow each other, at most one
  counts: the ready frame is counted once.
\<close>

theorem consumed_le_captured:
  assumes "counters v0 = (0, 0)" and "bufrdy v0 = -1"
    and "run W ops (v0, e0) = Some (v, e)"
    and "sum_list (map frames ops) < 2 ^ 63"
  shows "0 \<le> sint (snd (counters v)) \<and>
         sint (snd (counters v)) \<le> sint (fst (counters v)) \<and>
         sint (fst (counters v)) \<le> int (sum_list (map frames ops)) \<and>
         (bufrdy v \<ge> 0 \<and> bufdone v = 0 \<longrightarrow> sint (snd (counters v)) < sint (fst (counters v))) \<and>
         (counters (fst (snd (snd (GetImage (w_tk W) (w_convert W) f a (i, v, e))))) = counters v \<or>
          counters (fst (snd (snd (GetImage (w_tk W) (w_convert W) f' a' (i',
              fst (snd (snd (GetImage (w_tk W) (w_convert W) f a (i, v, e)))), e1)))))
           = counters (fst (snd (snd (GetImage (w_tk W) (w_convert W) f a (i, v, e))))))"
proof -
  from assms(1,2) have "counted 0 (fst (v0, e0))" by (simp add: counted_def)
  moreover from assms(4) have "0 + int (sum_list (map frames ops)) < 2 ^ 63"
    by (metis add_0 of_nat_less_iff of_nat_numeral of_nat_power)
  ultimately have "counted (0 + int (sum_list (map frames ops))) (fst (v, e))"
    using step_run_counted(2) [of "(v0, e0)" ops W] assms(3) by blast
  then have "counted (int (sum_list (map frames ops))) v" by simp
  with GetImage_twice [of "w_tk W" "w_convert W" f a i v e "w_tk W" "w_convert W" f' a' i' e1]
  show ?thesis by (simp add: counted_def)
qed

theorem consumed_le_captured_witness:
  "\<exists>v e. run world0 ops0 (session0, env0) = Some (v, e) \<and> counters v = (2, 2) \<and>
     sum_list (map frames ops0) = 2 \<and>
     sint (snd (counters v)) \<le> sint (fst (counters v))"
proof -
  from ops0_run obtain v e where r: "run world0 ops0 (session0, env0) = Some (v, e)"
    and c: "counters v = (2, 2)" by (auto simp: map_option_case split: option.splits)
  have f: "sum_list (map frames ops0) = 2" by (simp add: ops0_def)
  from consumed_le_captured [of session0 world0 ops0 env0 v e] r f
  have "sint (snd (counters v)) \<le> sint (fst (counters v))" by simp
  with r c f show ?thesis by blast
qed

end
